theory Spec2Isabelle
  imports Complex_Main "HOL-Library.Word" "HOL-Library.Signed_Division" "HOL-Library.Log_Nat"
begin

section \<open>The vosk element of gst-vosk (src/gstvosk.c), as a shallow embedding\<close>

text \<open>
  The element sits in a GStreamer pipeline, feeds S16LE mono audio to a Vosk recognizer and
  posts the recognizer's JSON results. The model below follows \<^verbatim>\<open>gstvosk.c\<close>
  function by function, for the build with \<^verbatim>\<open>HAVE_RNNOISE\<close>. The C functions mutate
  one \<^verbatim>\<open>GstVosk\<close> struct; here each of them takes the struct as a record and returns the
  updated record. Everything that lives outside the element (the Vosk engine, RNNoise, the
  pipeline clock, the pad's caps) is an argument of the function that consults it.
\<close>

subsection \<open>Clock values\<close>

text \<open>
  \<^verbatim>\<open>GstClockTime\<close> is \<^verbatim>\<open>guint64\<close> (nanoseconds), \<^verbatim>\<open>GstClockTimeDiff\<close> is
  \<^verbatim>\<open>gint64\<close>. Both are 64-bit words here; a signed reading is \<open>sint\<close>.
  \<^verbatim>\<open>GST_CLOCK_DIFF(s, e)\<close> is \<^verbatim>\<open>(GstClockTimeDiff)((e) - (s))\<close>: the unsigned
  difference, wrapped, read as signed.
\<close>

type_synonym GstClockTime = "64 word"
type_synonym GstClockTimeDiff = "64 word"
type_synonym gint64 = "64 word"
type_synonym gint16 = "16 word"
type_synonym gfloat = real

definition GST_CLOCK_TIME_NONE :: GstClockTime where
  "GST_CLOCK_TIME_NONE = - 1"

definition GST_SECOND :: GstClockTimeDiff where
  "GST_SECOND = 1000000000"

definition GST_MSECOND :: GstClockTimeDiff where
  "GST_MSECOND = 1000000"

definition GST_CLOCK_DIFF :: "GstClockTime \<Rightarrow> GstClockTime \<Rightarrow> GstClockTimeDiff" where
  "GST_CLOCK_DIFF s e = e - s"

text \<open>C's \<^verbatim>\<open>/\<close> on \<^verbatim>\<open>gint64\<close>: the quotient truncated towards zero.\<close>

definition gint64_div :: "gint64 \<Rightarrow> gint64 \<Rightarrow> gint64" where
  "gint64_div a b = word_of_int (sint a sdiv sint b)"

text \<open>The largest value of the property's range, \<^verbatim>\<open>G_MAXINT64\<close>.\<close>

definition G_MAXINT64 :: gint64 where
  "G_MAXINT64 = 9223372036854775807"

subsection \<open>The engine's empty payloads\<close>

definition VOSK_EMPTY_PARTIAL_RESULT :: string where
  "VOSK_EMPTY_PARTIAL_RESULT =
     [CHR ''{'', CHR 0x0A] @ ''  '' @ [CHR 0x22] @ ''partial'' @ [CHR 0x22] @ '' : '' @
     [CHR 0x22, CHR 0x22, CHR 0x0A] @ ''}''"

definition VOSK_EMPTY_TEXT_RESULT :: string where
  "VOSK_EMPTY_TEXT_RESULT =
     [CHR ''{'', CHR 0x0A] @ ''  '' @ [CHR 0x22] @ ''text'' @ [CHR 0x22] @ '' : '' @
     [CHR 0x22, CHR 0x22, CHR 0x0A] @ ''}''"

definition VOSK_EMPTY_TEXT_RESULT_ALT :: string where
  "VOSK_EMPTY_TEXT_RESULT_ALT =
     ''{'' @ [CHR 0x22] @ ''text'' @ [CHR 0x22] @ '': '' @ [CHR 0x22, CHR 0x22] @ ''}''"

subsection \<open>The element's state\<close>

text \<open>
  A \<^verbatim>\<open>VoskModel\<close> is known by the path it was built from; a \<^verbatim>\<open>VoskRecognizer\<close> by
  the model and the rate it was created with and the number of alternatives last set on it.
\<close>

datatype VoskModel = VoskModel string

datatype VoskRecognizer =
  VoskRecognizer (rec_model: VoskModel) (rec_rate: int) (rec_max_alternatives: int)

text \<open>What the element does to the world around it, in the order it does it.\<close>

datatype engine_call =
  AcceptWaveform
  | QueryResult
  | QueryFinalResult
  | QueryPartialResult
  | RecognizerReset

datatype host_event =
  ResultSignal string
  | ResultMessage string
  | AsyncStart
  | AsyncDone
  | ElementErrorNotFound
  | AbortState
  | ContinueState

text \<open>
  Modelled from the spec: the declaration of \<^verbatim>\<open>struct _GstVosk\<close> is in
  \<^verbatim>\<open>gstvosk.h\<close>, which is not among the sources. The record has the fields the functions
  of \<^verbatim>\<open>gstvosk.c\<close> read and write, which are those of the spec's Session and DenoiseState,
  each with the type of its uses: the two timestamps are assigned \<^verbatim>\<open>GST_BUFFER_PTS\<close> and
  compared with \<^verbatim>\<open>GST_CLOCK_TIME_NONE\<close> (\<^verbatim>\<open>GstClockTime\<close>), the interval is the
  product of \<^verbatim>\<open>g_value_get_int64\<close> and \<^verbatim>\<open>GST_MSECOND\<close> and is tested for
  \<^verbatim>\<open>< 0\<close> (\<^verbatim>\<open>gint64\<close>), the denoise positions and sizes are counts
  (natural numbers here), and the rate is a floating-point field, held here as the
  float's value, which is always an integer.

  A pointer that may be \<^verbatim>\<open>NULL\<close> is an option; the two float arrays are
  lists, empty when not allocated (\<^verbatim>\<open>g_malloc0\<close> of nothing is \<^verbatim>\<open>NULL\<close>). A
  \<^verbatim>\<open>GCancellable\<close> is a number, and \<open>cancelled\<close> holds the numbers of those whose flag
  is set. The RNNoise state is the list of frames it has been given so far, the latest last:
  whatever the filter remembers is a function of that list.

  The last three fields are not in the struct: \<open>engine_calls\<close> logs the calls made on the
  recognizer, \<open>outputs\<close> the results and notifications handed to the host, and \<open>cancelled\<close>
  is the flag store just described.
\<close>

record vosk =
  model_path :: "string option"
  alternatives :: int
  rate :: int
  use_signals :: bool
  current_operation :: "nat option"
  recognizer :: "VoskRecognizer option"
  prev_partial :: "string option"
  last_processed_time :: GstClockTime
  last_partial :: GstClockTime
  partial_time_interval :: gint64
  enable_denoise :: bool
  denoise_state :: "gfloat list list option"
  denoise_input_buffer :: "gfloat list"
  denoise_output_buffer :: "gfloat list"
  denoise_buffer_size :: nat
  denoise_buffer_pos :: nat
  denoise_output_pos :: nat
  denoise_initialized :: bool
  engine_calls :: "engine_call list"
  outputs :: "host_event list"
  cancelled :: "nat set"

subsection \<open>The partial-results-interval property\<close>

text \<open>
  \<^verbatim>\<open>gst_vosk_set_property\<close>, case \<^verbatim>\<open>PROP_PARTIAL_RESULTS_INTERVAL\<close>:
  \<^verbatim>\<open>vosk->partial_time_interval = g_value_get_int64(value) * GST_MSECOND\<close>. The product
  of two \<^verbatim>\<open>gint64\<close> is taken modulo \<open>2 ^ 64\<close>, as the compiled code does.
\<close>

definition set_partial_results_interval :: "gint64 \<Rightarrow> vosk \<Rightarrow> vosk" where
  "set_partial_results_interval v s = s\<lparr>partial_time_interval := v * GST_MSECOND\<rparr>"

text \<open>
  \<^verbatim>\<open>gst_vosk_get_property\<close>, same case:
  \<^verbatim>\<open>g_value_set_int64(prop_value, vosk->partial_time_interval / GST_MSECOND)\<close>.
\<close>

definition get_partial_results_interval :: "vosk \<Rightarrow> gint64" where
  "get_partial_results_interval s = gint64_div (partial_time_interval s) GST_MSECOND"

subsection \<open>Noise suppression: the frame accumulator and the output queue\<close>

definition RNNOISE_FRAME_SIZE :: nat where
  "RNNOISE_FRAME_SIZE = 480"

text \<open>
  \<^verbatim>\<open>rnnoise_process_frame(state, out, in)\<close> belongs to RNNoise. It is an argument
  \<open>rnn\<close> of the model: given the frames the state has seen and the frame handed in,
  \<open>rnn frames frame i\<close> is sample \<open>i\<close> of the cleaned frame. The call writes
  \<^verbatim>\<open>RNNOISE_FRAME_SIZE\<close> floats.
\<close>

type_synonym rnnoise = "gfloat list list \<Rightarrow> gfloat list \<Rightarrow> nat \<Rightarrow> gfloat"

text \<open>
  Storing the elements \<open>ys\<close> into an array \<open>xs\<close> from index \<open>off\<close> on
  (\<^verbatim>\<open>memcpy\<close>, \<^verbatim>\<open>memmove\<close>, \<^verbatim>\<open>memset\<close> and the conversion loops all do this).
\<close>

definition array_write :: "'a list \<Rightarrow> nat \<Rightarrow> 'a list \<Rightarrow> 'a list" where
  "array_write xs off ys = take off xs @ ys @ drop (off + length ys) xs"

text \<open>\<^verbatim>\<open>gst_vosk_get_rate\<close>: the rate of the sink pad's caps, 0 when there is none.\<close>

definition gst_vosk_get_rate :: "int option \<Rightarrow> int" where
  "gst_vosk_get_rate caps = (case caps of None \<Rightarrow> 0 | Some r \<Rightarrow> r)"

text \<open>
  \<^verbatim>\<open>gst_vosk_init_denoise\<close>. \<open>created\<close> says whether \<^verbatim>\<open>rnnoise_create\<close> returns a
  state.
\<close>

definition gst_vosk_init_denoise :: "bool \<Rightarrow> int option \<Rightarrow> vosk \<Rightarrow> bool \<times> vosk" where
  "gst_vosk_init_denoise created caps s =
     (if \<not> enable_denoise s \<or> denoise_initialized s then (True, s)
      else if gst_vosk_get_rate caps \<le> 0 then (False, s)
      else
        let s1 = s\<lparr>denoise_state := None, denoise_input_buffer := []\<rparr> in
        if \<not> created then (False, s1)
        else
          (True,
           s1\<lparr>denoise_state := Some [],
              denoise_buffer_size := RNNOISE_FRAME_SIZE * 2,
              denoise_input_buffer := replicate (RNNOISE_FRAME_SIZE * 2) 0,
              denoise_buffer_pos := 0,
              denoise_output_buffer := replicate (RNNOISE_FRAME_SIZE * 2) 0,
              denoise_output_pos := 0,
              denoise_initialized := True\<rparr>))"

text \<open>
  \<^verbatim>\<open>gst_vosk_process_denoise_frame(vosk, vosk->denoise_input_buffer)\<close>: the frame is the
  first \<^verbatim>\<open>RNNOISE_FRAME_SIZE\<close> floats of the accumulator, cleaned in place.
\<close>

definition gst_vosk_process_denoise_frame :: "rnnoise \<Rightarrow> vosk \<Rightarrow> vosk" where
  "gst_vosk_process_denoise_frame rnn s =
     (case denoise_state s of
        None \<Rightarrow> s
      | Some frames \<Rightarrow>
          if \<not> denoise_initialized s then s
          else
            let frame = take RNNOISE_FRAME_SIZE (denoise_input_buffer s) in
            s\<lparr>denoise_state := Some (frames @ [frame]),
              denoise_input_buffer :=
                array_write (denoise_input_buffer s) 0
                  (map (rnn frames frame) [0..<RNNOISE_FRAME_SIZE])\<rparr>)"

definition gst_vosk_convert_s16_to_float :: "gint16 list \<Rightarrow> gfloat list" where
  "gst_vosk_convert_s16_to_float input = map (\<lambda>x. real_of_int (sint x)) input"

text \<open>GLib's \<^verbatim>\<open>CLAMP(x, low, high)\<close>, and C's conversion of a float to \<^verbatim>\<open>gint16\<close>.\<close>

definition CLAMP :: "gfloat \<Rightarrow> gfloat \<Rightarrow> gfloat \<Rightarrow> gfloat" where
  "CLAMP x low high = (if x > high then high else if x < low then low else x)"

definition gint16_of_float :: "gfloat \<Rightarrow> gint16" where
  "gint16_of_float x = word_of_int (if 0 \<le> x then \<lfloor>x\<rfloor> else \<lceil>x\<rceil>)"

definition gst_vosk_convert_float_to_s16 :: "gfloat list \<Rightarrow> gint16 list" where
  "gst_vosk_convert_float_to_s16 input =
     map (\<lambda>sample. gint16_of_float (CLAMP sample (- 32768) 32767)) input"

text \<open>
  The body of \<^verbatim>\<open>if (vosk->denoise_buffer_pos == RNNOISE_FRAME_SIZE)\<close> in
  \<^verbatim>\<open>gst_vosk_apply_denoise\<close>: clean the full frame, append it to the output queue if it
  fits (else drop it), restart the accumulator.
\<close>

definition denoise_frame_complete :: "rnnoise \<Rightarrow> vosk \<Rightarrow> vosk" where
  "denoise_frame_complete rnn s =
     (let s1 = gst_vosk_process_denoise_frame rnn s;
          s2 =
            (if denoise_output_pos s1 + RNNOISE_FRAME_SIZE \<le> denoise_buffer_size s1
             then
               s1\<lparr>denoise_output_buffer :=
                    array_write (denoise_output_buffer s1) (denoise_output_pos s1)
                      (take RNNOISE_FRAME_SIZE (denoise_input_buffer s1)),
                  denoise_output_pos := denoise_output_pos s1 + RNNOISE_FRAME_SIZE\<rparr>
             else s1)
      in s2\<lparr>denoise_buffer_pos := 0\<rparr>)"

text \<open>One pass through the body of the \<^verbatim>\<open>while\<close> loop; the pair is the state and \<^verbatim>\<open>samples_read\<close>.\<close>

definition denoise_loop_body :: "rnnoise \<Rightarrow> gint16 list \<Rightarrow> vosk \<times> nat \<Rightarrow> vosk \<times> nat" where
  "denoise_loop_body rnn s16_buffer st =
     (let s = fst st;
          samples_read = snd st;
          to_copy =
            min (RNNOISE_FRAME_SIZE - denoise_buffer_pos s) (length s16_buffer - samples_read);
          s1 =
            s\<lparr>denoise_input_buffer :=
                array_write (denoise_input_buffer s) (denoise_buffer_pos s)
                  (gst_vosk_convert_s16_to_float (take to_copy (drop samples_read s16_buffer))),
              denoise_buffer_pos := denoise_buffer_pos s + to_copy\<rparr>
      in (if denoise_buffer_pos s1 = RNNOISE_FRAME_SIZE then denoise_frame_complete rnn s1 else s1,
          samples_read + to_copy))"

text \<open>
  The loop \<^verbatim>\<open>while (samples_read < s16_buffer_samples)\<close>. Positions are natural
  numbers. The accumulator position stays below the frame size from one buffer to the next
  (it is set to 0 whenever it reaches it); a position beyond the frame size makes the C code
  write outside the accumulator, and the model does not follow it there: the loop is left.
\<close>

function denoise_loop :: "rnnoise \<Rightarrow> gint16 list \<Rightarrow> vosk \<times> nat \<Rightarrow> vosk" where
  "denoise_loop rnn s16_buffer st =
     (if snd st < length s16_buffer \<and> denoise_buffer_pos (fst st) \<le> RNNOISE_FRAME_SIZE
      then denoise_loop rnn s16_buffer (denoise_loop_body rnn s16_buffer st)
      else fst st)"
  by pat_completeness auto
termination
  by (relation "measure (\<lambda>(rnn, s16_buffer, st).
        2 * (length s16_buffer - snd st)
        + (if denoise_buffer_pos (fst st) = RNNOISE_FRAME_SIZE then 1 else 0))")
     (auto simp: denoise_loop_body_def denoise_frame_complete_def
        gst_vosk_process_denoise_frame_def RNNOISE_FRAME_SIZE_def Let_def
        split: option.splits)

declare denoise_loop.simps [simp del]

text \<open>
  The rest of \<^verbatim>\<open>gst_vosk_apply_denoise\<close>, after the loop: the buffer is rewritten from
  the front of the output queue, the queue is shifted down, and what the queue could not
  fill is set to silence. The pair is the state and the buffer's new contents.
\<close>

definition denoise_drain :: "vosk \<Rightarrow> gint16 list \<Rightarrow> vosk \<times> gint16 list" where
  "denoise_drain s s16_buffer =
     (let s16_buffer_samples = length s16_buffer;
          samples_to_write = min (denoise_output_pos s) s16_buffer_samples;
          written =
            (if samples_to_write > 0
             then array_write s16_buffer 0
                    (gst_vosk_convert_float_to_s16 (take samples_to_write (denoise_output_buffer s)))
             else s16_buffer);
          s1 =
            (if samples_to_write > 0
             then
               let output_pos = denoise_output_pos s - samples_to_write in
               s\<lparr>denoise_output_pos := output_pos,
                 denoise_output_buffer :=
                   (if output_pos > 0
                    then array_write (denoise_output_buffer s) 0
                           (take output_pos (drop samples_to_write (denoise_output_buffer s)))
                    else denoise_output_buffer s)\<rparr>
             else s)
      in (s1,
          if samples_to_write < s16_buffer_samples
          then array_write written samples_to_write
                 (replicate (s16_buffer_samples - samples_to_write) 0)
          else written))"

definition gst_vosk_apply_denoise :: "rnnoise \<Rightarrow> vosk \<Rightarrow> gint16 list \<Rightarrow> vosk \<times> gint16 list" where
  "gst_vosk_apply_denoise rnn s s16_buffer =
     (if \<not> enable_denoise s \<or> \<not> denoise_initialized s then (s, s16_buffer)
      else if rate s \<noteq> 48000 then (s, s16_buffer)
      else denoise_drain (denoise_loop rnn s16_buffer (s, 0)) s16_buffer)"

text \<open>Feeding a sequence of buffers, one call of \<^verbatim>\<open>gst_vosk_apply_denoise\<close> each.\<close>

fun denoise_buffers :: "rnnoise \<Rightarrow> vosk \<Rightarrow> gint16 list list \<Rightarrow> vosk \<times> gint16 list list" where
  "denoise_buffers rnn s [] = (s, [])"
| "denoise_buffers rnn s (b # bs) =
     (let r = gst_vosk_apply_denoise rnn s b;
          rs = denoise_buffers rnn (fst r) bs
      in (fst rs, snd r # snd rs))"

text \<open>How often the suppression transform has run: the frames its state has seen.\<close>

definition rnnoise_calls :: "vosk \<Rightarrow> nat" where
  "rnnoise_calls s = (case denoise_state s of None \<Rightarrow> 0 | Some frames \<Rightarrow> length frames)"

text \<open>
  Denoising is at work on a buffer when it is enabled and initialized at 48000 Hz and the
  RNNoise state exists (the tests of \<^verbatim>\<open>gst_vosk_apply_denoise\<close> and of
  \<^verbatim>\<open>gst_vosk_process_denoise_frame\<close>).
\<close>

definition denoise_active :: "vosk \<Rightarrow> bool" where
  "denoise_active s \<longleftrightarrow>
     enable_denoise s \<and> denoise_initialized s \<and> rate s = 48000 \<and> denoise_state s \<noteq> None"

text \<open>
  The shape \<^verbatim>\<open>gst_vosk_init_denoise\<close> gives the two arrays and the two positions: both
  arrays have \<^verbatim>\<open>denoise_buffer_size\<close> elements, which is room for a frame at least; the
  accumulator holds less than a frame; the output position is within the array.
\<close>

definition denoise_wf :: "vosk \<Rightarrow> bool" where
  "denoise_wf s \<longleftrightarrow>
     denoise_buffer_pos s < RNNOISE_FRAME_SIZE \<and>
     denoise_output_pos s \<le> denoise_buffer_size s \<and>
     length (denoise_input_buffer s) = denoise_buffer_size s \<and>
     length (denoise_output_buffer s) = denoise_buffer_size s \<and>
     RNNOISE_FRAME_SIZE \<le> denoise_buffer_size s"

text \<open>The clean samples waiting in the output queue: the array up to the output position.\<close>

definition output_queue :: "vosk \<Rightarrow> gfloat list" where
  "output_queue s = take (denoise_output_pos s) (denoise_output_buffer s)"

subsection \<open>Result queries\<close>

text \<open>
  What the recognizer answers while one buffer or event is handled: the return value of
  \<^verbatim>\<open>vosk_recognizer_accept_waveform\<close> and the texts of \<^verbatim>\<open>vosk_recognizer_result\<close>,
  \<^verbatim>\<open>vosk_recognizer_final_result\<close> and \<^verbatim>\<open>vosk_recognizer_partial_result\<close>
  (\<open>None\<close> for \<^verbatim>\<open>NULL\<close>).
\<close>

record engine_reply =
  accept_waveform :: int
  result_json :: "string option"
  final_result_json :: "string option"
  partial_result_json :: "string option"

definition gst_vosk_message_new :: "vosk \<Rightarrow> string option \<Rightarrow> vosk" where
  "gst_vosk_message_new s text_results =
     (case text_results of
        None \<Rightarrow> s
      | Some txt \<Rightarrow>
          s\<lparr>outputs :=
              outputs s @ [if use_signals s then ResultSignal txt else ResultMessage txt]\<rparr>)"

definition gst_vosk_final_result :: "engine_reply \<Rightarrow> vosk \<Rightarrow> string option \<times> vosk" where
  "gst_vosk_final_result eng s =
     (if recognizer s = None then (None, s)
      else
        let json_txt = final_result_json eng;
            s1 = s\<lparr>engine_calls := engine_calls s @ [QueryFinalResult], prev_partial := None\<rparr>
        in if json_txt = None \<or> json_txt = Some VOSK_EMPTY_TEXT_RESULT
                \<or> json_txt = Some VOSK_EMPTY_TEXT_RESULT_ALT
           then (None, s1)
           else (json_txt, s1))"

definition gst_vosk_result :: "engine_reply \<Rightarrow> vosk \<Rightarrow> string option \<times> vosk" where
  "gst_vosk_result eng s =
     (if recognizer s = None then (None, s)
      else
        let json_txt = result_json eng;
            s1 = s\<lparr>engine_calls := engine_calls s @ [QueryResult], prev_partial := None\<rparr>
        in if json_txt = None \<or> json_txt = Some VOSK_EMPTY_TEXT_RESULT
           then (None, s1)
           else (json_txt, s1))"

definition gst_vosk_final_result_msg :: "engine_reply \<Rightarrow> vosk \<Rightarrow> vosk" where
  "gst_vosk_final_result_msg eng s =
     (let r = gst_vosk_final_result eng s in
      if fst r \<noteq> None then gst_vosk_message_new (snd r) (fst r) else snd r)"

definition gst_vosk_result_msg :: "engine_reply \<Rightarrow> vosk \<Rightarrow> vosk" where
  "gst_vosk_result_msg eng s =
     (let r = gst_vosk_result eng s in
      if fst r \<noteq> None then gst_vosk_message_new (snd r) (fst r) else snd r)"

text \<open>
  \<^verbatim>\<open>gst_vosk_partial_result\<close>. \<^verbatim>\<open>g_strcmp0\<close> of the text and the cached partial is 0
  when both are the same string; a text is never equal to an empty cache.
\<close>

definition gst_vosk_partial_result :: "engine_reply \<Rightarrow> vosk \<Rightarrow> vosk" where
  "gst_vosk_partial_result eng s =
     (let json_txt = partial_result_json eng;
          s1 = s\<lparr>engine_calls := engine_calls s @ [QueryPartialResult]\<rparr>
      in if json_txt = None \<or> json_txt = Some VOSK_EMPTY_PARTIAL_RESULT
              \<or> json_txt = Some VOSK_EMPTY_TEXT_RESULT_ALT
         then s1
         else if json_txt = prev_partial s1 then s1
         else gst_vosk_message_new (s1\<lparr>prev_partial := json_txt\<rparr>) json_txt)"

subsection \<open>Handling a buffer\<close>

text \<open>
  A buffer as the chain function sees it: its presentation timestamp, its samples
  (\<^verbatim>\<open>info.data\<close> read as \<^verbatim>\<open>gint16\<close>; \<^verbatim>\<open>info.size\<close> is twice their number), and
  whether \<^verbatim>\<open>gst_buffer_map\<close> succeeds on it.
\<close>

record GstBuffer =
  GST_BUFFER_PTS :: GstClockTime
  buffer_data :: "gint16 list"
  buffer_map_ok :: bool

text \<open>
  The end of \<^verbatim>\<open>gst_vosk_handle_buffer\<close>, from \<^verbatim>\<open>if (result == 1)\<close> on: the final result
  if the engine announced one, else a partial result if the interval allows.
\<close>

definition handle_buffer_results :: "engine_reply \<Rightarrow> GstBuffer \<Rightarrow> vosk \<Rightarrow> vosk" where
  "handle_buffer_results eng buf s =
     (if accept_waveform eng = 1
      then (gst_vosk_result_msg eng s)\<lparr>last_partial := GST_BUFFER_PTS buf\<rparr>
      else if sint (partial_time_interval s) < 0 then s
      else if sint (partial_time_interval s)
                < sint (GST_CLOCK_DIFF (last_partial s) (GST_BUFFER_PTS buf))
      then (gst_vosk_partial_result eng s)\<lparr>last_partial := GST_BUFFER_PTS buf\<rparr>
      else s)"

text \<open>
  The catch-up test of \<^verbatim>\<open>gst_vosk_handle_buffer\<close>: the buffer is more than
  \<^verbatim>\<open>GST_SECOND / 2\<close> behind the running time, and less than \<^verbatim>\<open>(GST_SECOND << 1) / 10\<close>
  after the last processed buffer. When it holds the function returns without a query.
\<close>

definition catching_up :: "GstClockTime \<Rightarrow> GstBuffer \<Rightarrow> bool" where
  "catching_up current_time buf \<longleftrightarrow>
     sint (gint64_div GST_SECOND 2) < sint (GST_CLOCK_DIFF (GST_BUFFER_PTS buf) current_time)"

definition catch_up_skips :: "GstClockTime \<Rightarrow> GstBuffer \<Rightarrow> vosk \<Rightarrow> bool" where
  "catch_up_skips current_time buf s \<longleftrightarrow>
     catching_up current_time buf \<and>
     sint (GST_CLOCK_DIFF (last_processed_time s) (GST_BUFFER_PTS buf))
       < sint (gint64_div (push_bit 1 GST_SECOND) 10)"

text \<open>
  \<^verbatim>\<open>gst_vosk_handle_buffer\<close>. \<open>current_time\<close> is what
  \<^verbatim>\<open>gst_element_get_current_running_time\<close> returns. The result is the state and the
  buffer's contents afterwards.
\<close>

definition gst_vosk_handle_buffer ::
  "rnnoise \<Rightarrow> GstClockTime \<Rightarrow> engine_reply \<Rightarrow> GstBuffer \<Rightarrow> vosk \<Rightarrow> vosk \<times> gint16 list" where
  "gst_vosk_handle_buffer rnn current_time eng buf s =
     (if \<not> buffer_map_ok buf then (s, buffer_data buf)
      else if buffer_data buf = [] then (s, buffer_data buf)
      else
        let d = gst_vosk_apply_denoise rnn s (buffer_data buf);
            s1 = (fst d)\<lparr>engine_calls := engine_calls (fst d) @ [AcceptWaveform]\<rparr>
        in if accept_waveform eng = - 1 then (s1, snd d)
           else if catch_up_skips current_time buf s1 then (s1, snd d)
           else
             (handle_buffer_results eng buf (s1\<lparr>last_processed_time := GST_BUFFER_PTS buf\<rparr>),
              snd d))"

text \<open>\<^verbatim>\<open>gst_vosk_chain\<close>, up to the push of the buffer on the source pad.\<close>

definition gst_vosk_chain ::
  "rnnoise \<Rightarrow> GstClockTime \<Rightarrow> engine_reply \<Rightarrow> GstBuffer \<Rightarrow> vosk \<Rightarrow> vosk \<times> gint16 list" where
  "gst_vosk_chain rnn current_time eng buf s =
     (if recognizer s \<noteq> None
      then
        gst_vosk_handle_buffer rnn current_time eng buf
          (if last_processed_time s = GST_CLOCK_TIME_NONE
           then s\<lparr>last_processed_time := GST_BUFFER_PTS buf\<rparr>
           else s)
      else
        (if last_processed_time s = GST_CLOCK_TIME_NONE
         then s\<lparr>last_processed_time := GST_BUFFER_PTS buf\<rparr>
         else s,
         buffer_data buf))"

subsection \<open>Events, state changes and the model loader\<close>

definition gst_vosk_flush :: "vosk \<Rightarrow> vosk" where
  "gst_vosk_flush s =
     (if recognizer s \<noteq> None
      then s\<lparr>engine_calls := engine_calls s @ [RecognizerReset]\<rparr>
      else s)"

definition gst_vosk_cancel_model_loading :: "vosk \<Rightarrow> vosk" where
  "gst_vosk_cancel_model_loading s =
     (case current_operation s of
        Some operation \<Rightarrow>
          s\<lparr>cancelled := insert operation (cancelled s), current_operation := None\<rparr>
      | None \<Rightarrow> s)"

datatype GstEventType = GST_EVENT_FLUSH_START | GST_EVENT_EOS | GST_EVENT_OTHER

text \<open>\<^verbatim>\<open>gst_vosk_sink_event\<close>, up to the call of the default handler.\<close>

definition gst_vosk_sink_event :: "engine_reply \<Rightarrow> GstEventType \<Rightarrow> vosk \<Rightarrow> vosk" where
  "gst_vosk_sink_event eng event s =
     (case event of
        GST_EVENT_FLUSH_START \<Rightarrow> gst_vosk_flush s
      | GST_EVENT_EOS \<Rightarrow> gst_vosk_final_result_msg eng (gst_vosk_cancel_model_loading s)
      | GST_EVENT_OTHER \<Rightarrow> s)"

definition gst_vosk_reset :: "vosk \<Rightarrow> vosk" where
  "gst_vosk_reset s =
     (let s1 = s\<lparr>recognizer := None, prev_partial := None\<rparr>;
          s2 =
            (if denoise_input_buffer s1 \<noteq> []
             then
               s1\<lparr>denoise_buffer_pos := 0,
                  denoise_input_buffer := replicate (denoise_buffer_size s1) 0\<rparr>
             else s1)
      in s2\<lparr>denoise_initialized := False,
           last_processed_time := GST_CLOCK_TIME_NONE,
           rate := 0\<rparr>)"

text \<open>
  C's conversion of a \<^verbatim>\<open>gint\<close> to a 32-bit float, as the value of the float: an integer
  below \<open>2 ^ 24\<close> in absolute value is kept; a larger one keeps its 24 leading bits, rounded
  to the nearest, ties to the even one. (A \<^verbatim>\<open>gint\<close> has at most 31 bits, so the result
  is an integer and never infinite.)
\<close>

definition gfloat_of_gint :: "int \<Rightarrow> int" where
  "gfloat_of_gint r =
     (if \<bar>r\<bar> < 2 ^ 24 then r
      else
        let e = floorlog 2 (nat \<bar>r\<bar>) - 24;
            q = \<bar>r\<bar> div 2 ^ e;
            rest = \<bar>r\<bar> mod 2 ^ e;
            half = 2 ^ (e - 1);
            q' = (if half < rest \<or> (rest = half \<and> odd q) then q + 1 else q)
        in sgn r * q' * 2 ^ e)"

text \<open>
  \<^verbatim>\<open>gst_vosk_recognizer_new\<close>. The element's rate is a floating-point field (it is
  assigned \<^verbatim>\<open>0.0\<close>, compared with \<^verbatim>\<open>0.0\<close> and printed with \<^verbatim>\<open>%f\<close>) and
  \<^verbatim>\<open>vosk_recognizer_new\<close> takes a \<^verbatim>\<open>float\<close>: the integer rate of the caps goes
  through the conversion above, and the field \<open>rate\<close> holds the float's value.
  \<^verbatim>\<open>vosk_recognizer_new\<close> followed by \<^verbatim>\<open>vosk_recognizer_set_max_alternatives\<close>
  gives the recognizer for the model and the rate, with the element's number of alternatives.
\<close>

definition gst_vosk_recognizer_new ::
  "bool \<Rightarrow> int option \<Rightarrow> VoskModel option \<Rightarrow> vosk \<Rightarrow> bool \<times> vosk" where
  "gst_vosk_recognizer_new created caps model s =
     (let s1 = s\<lparr>rate := gfloat_of_gint (gst_vosk_get_rate caps)\<rparr> in
      if rate s1 \<le> 0 then (False, s1)
      else
        case model of
          None \<Rightarrow> (False, s1)
        | Some m \<Rightarrow>
            let s2 = (if enable_denoise s1 then snd (gst_vosk_init_denoise created caps s1) else s1)
            in (True, s2\<lparr>recognizer := Some (VoskRecognizer m (rate s2) (alternatives s2))\<rparr>))"

record GstVoskThreadData =
  path :: string
  cancellable :: nat

text \<open>The label \<^verbatim>\<open>clean\<close> of the loader: the worker's own cancellable is cancelled and released.\<close>

definition load_model_clean :: "GstVoskThreadData \<Rightarrow> vosk \<Rightarrow> vosk" where
  "load_model_clean status s = s\<lparr>cancelled := insert (cancellable status) (cancelled s)\<rparr>"

text \<open>
  \<^verbatim>\<open>gst_vosk_load_model_async\<close>, the worker of the thread pool. \<open>vosk_model_new\<close> is the
  engine's constructor (\<open>None\<close> when it fails). The constructor runs without the element's
  lock, for as long as it takes; \<open>meanwhile\<close> is what the other threads do to the element
  during that time (the identity when they do nothing). From \<^verbatim>\<open>GST_VOSK_LOCK\<close> on the
  worker is alone.
\<close>

definition gst_vosk_load_model_async ::
  "(string \<Rightarrow> VoskModel option) \<Rightarrow> bool \<Rightarrow> int option \<Rightarrow> (vosk \<Rightarrow> vosk) \<Rightarrow>
   GstVoskThreadData \<Rightarrow> vosk \<Rightarrow> vosk" where
  "gst_vosk_load_model_async vosk_model_new created caps meanwhile status s =
     (if cancellable status \<in> cancelled s then load_model_clean status s
      else
        let model = vosk_model_new (path status);
            s1 = (meanwhile s)\<lparr>current_operation := None\<rparr>
        in if cancellable status \<in> cancelled s1 then load_model_clean status s1
           else
             case model of
               None \<Rightarrow>
                 load_model_clean status
                   (s1\<lparr>outputs := outputs s1 @ [ElementErrorNotFound, AbortState]\<rparr>)
             | Some m \<Rightarrow>
                 let s2 = snd (gst_vosk_recognizer_new created caps model s1)
                 in load_model_clean status
                      (s2\<lparr>outputs := outputs s2 @ [AsyncDone, ContinueState]\<rparr>))"

datatype GstStateChangeReturn =
  GST_STATE_CHANGE_FAILURE | GST_STATE_CHANGE_SUCCESS | GST_STATE_CHANGE_ASYNC

text \<open>
  \<^verbatim>\<open>gst_vosk_check_model_path\<close>. \<open>operation\<close> is the cancellable that
  \<^verbatim>\<open>g_cancellable_new\<close> returns; the third component is the request pushed to the thread
  pool, if any.
\<close>

definition gst_vosk_check_model_path ::
  "nat \<Rightarrow> vosk \<Rightarrow> GstStateChangeReturn \<times> vosk \<times> GstVoskThreadData option" where
  "gst_vosk_check_model_path operation s =
     (case model_path s of
        None \<Rightarrow>
          (GST_STATE_CHANGE_FAILURE, s\<lparr>outputs := outputs s @ [ElementErrorNotFound]\<rparr>, None)
      | Some p \<Rightarrow>
          let s1 = s\<lparr>last_processed_time := GST_CLOCK_TIME_NONE\<rparr> in
          if recognizer s1 \<noteq> None then (GST_STATE_CHANGE_SUCCESS, s1, None)
          else
            (GST_STATE_CHANGE_ASYNC,
             s1\<lparr>current_operation := Some operation, outputs := outputs s1 @ [AsyncStart]\<rparr>,
             Some \<lparr>path = p, cancellable = operation\<rparr>))"

text \<open>
  The second \<^verbatim>\<open>switch\<close> of \<^verbatim>\<open>gst_vosk_change_state\<close> for the transitions to READY:
  a pending load is cancelled and the element is reset.
\<close>

definition change_state_to_ready :: "vosk \<Rightarrow> vosk" where
  "change_state_to_ready s = gst_vosk_reset (gst_vosk_cancel_model_loading s)"

subsection \<open>The element as created, and sample inputs\<close>

definition DEFAULT_SPEECH_MODEL :: string where
  "DEFAULT_SPEECH_MODEL = ''/usr/share/vosk/model''"

text \<open>
  \<^verbatim>\<open>gst_vosk_init\<close>: the fields it assigns; the others are the zeroes of a fresh GObject
  instance.
\<close>

definition gst_vosk_init :: vosk where
  "gst_vosk_init =
     \<lparr>model_path = Some DEFAULT_SPEECH_MODEL,
      alternatives = 0,
      rate = 0,
      use_signals = False,
      current_operation = None,
      recognizer = None,
      prev_partial = None,
      last_processed_time = 0,
      last_partial = 0,
      partial_time_interval = 0,
      enable_denoise = True,
      denoise_state = None,
      denoise_input_buffer = [],
      denoise_output_buffer = [],
      denoise_buffer_size = 0,
      denoise_buffer_pos = 0,
      denoise_output_pos = 0,
      denoise_initialized = False,
      engine_calls = [],
      outputs = [],
      cancelled = {}\<rparr>"

text \<open>
  The element after one activation at the given rate: the state change to PAUSED starts a
  load, the worker builds the model undisturbed and installs the recognizer.
\<close>

definition vosk_activated :: "int \<Rightarrow> vosk" where
  "vosk_activated r =
     gst_vosk_load_model_async (\<lambda>p. Some (VoskModel p)) True (Some r) (\<lambda>s. s)
       \<lparr>path = DEFAULT_SPEECH_MODEL, cancellable = 1\<rparr>
       (fst (snd (gst_vosk_check_model_path 1 gst_vosk_init)))"

text \<open>
  The element while its first load is pending (operation 1), and what happens to it when
  the pipeline goes back to READY and then to PAUSED again: the pending load is cancelled,
  the element is reset, and a second load (operation 2) is requested.
\<close>

definition vosk_loading :: vosk where
  "vosk_loading = fst (snd (gst_vosk_check_model_path 1 gst_vosk_init))"

definition pipeline_restarted :: "vosk \<Rightarrow> vosk" where
  "pipeline_restarted s = fst (snd (gst_vosk_check_model_path 2 (change_state_to_ready s)))"

text \<open>
  The first worker's run in that case: it builds its model while the pipeline restarts, and
  finds its cancellable cancelled when it takes the lock.
\<close>

definition first_worker_done :: vosk where
  "first_worker_done =
     gst_vosk_load_model_async (\<lambda>p. Some (VoskModel p)) True (Some 16000) pipeline_restarted
       \<lparr>path = DEFAULT_SPEECH_MODEL, cancellable = 1\<rparr> vosk_loading"

text \<open>A buffer of one sample of silence at a given time, a reply of the engine, a filter.\<close>

definition buffer_at :: "GstClockTime \<Rightarrow> GstBuffer" where
  "buffer_at t = \<lparr>GST_BUFFER_PTS = t, buffer_data = [0], buffer_map_ok = True\<rparr>"

definition engine_says :: "int \<Rightarrow> string \<Rightarrow> engine_reply" where
  "engine_says r txt =
     \<lparr>accept_waveform = r,
      result_json = Some txt,
      final_result_json = Some txt,
      partial_result_json = Some txt\<rparr>"

definition rnnoise_pass :: rnnoise where
  "rnnoise_pass frames frame i = (if i < length frame then frame ! i else 0)"

text \<open>
  The element once streaming has started: activated at 16000 Hz, it has taken a first buffer
  at time 0, on time, for which the engine had nothing to say.
\<close>

definition vosk_streaming :: vosk where
  "vosk_streaming =
     fst (gst_vosk_chain rnnoise_pass 0 (engine_says 0 VOSK_EMPTY_PARTIAL_RESULT) (buffer_at 0)
            (vosk_activated 16000))"

text \<open>And after a second buffer, 100 ms later and on time, with a partial result.\<close>

definition vosk_heard_hello :: vosk where
  "vosk_heard_hello =
     fst (gst_vosk_chain rnnoise_pass 100000000 (engine_says 0 ''hello'') (buffer_at 100000000)
            vosk_streaming)"

subsection \<open>When a partial result is posted\<close>

text \<open>
  The tests of \<^verbatim>\<open>gst_vosk_partial_result\<close> taken together: the text is there, it is not
  one of the two empty payloads the function knows, and it differs from the cached one.
\<close>

definition partial_posted :: "engine_reply \<Rightarrow> vosk \<Rightarrow> bool" where
  "partial_posted eng s \<longleftrightarrow>
     partial_result_json eng \<noteq> None \<and>
     partial_result_json eng \<noteq> Some VOSK_EMPTY_PARTIAL_RESULT \<and>
     partial_result_json eng \<noteq> Some VOSK_EMPTY_TEXT_RESULT_ALT \<and>
     partial_result_json eng \<noteq> prev_partial s"

section \<open>Auxiliary facts\<close>

subsection \<open>The sample states\<close>

lemma activated_fields:
  "recognizer (vosk_activated 16000) = Some (VoskRecognizer (VoskModel DEFAULT_SPEECH_MODEL) 16000 0)"
  "rate (vosk_activated 16000) = 16000"
  "last_processed_time (vosk_activated 16000) = GST_CLOCK_TIME_NONE"
  "prev_partial (vosk_activated 16000) = None"
  "engine_calls (vosk_activated 16000) = []"
  "outputs (vosk_activated 16000) = [AsyncStart, AsyncDone, ContinueState]"
  "partial_time_interval (vosk_activated 16000) = 0"
  "last_partial (vosk_activated 16000) = 0"
  "use_signals (vosk_activated 16000) = False"
  "enable_denoise (vosk_activated 16000) = True"
  "denoise_initialized (vosk_activated 16000) = True"
  by (simp_all add: vosk_activated_def gst_vosk_load_model_async_def gst_vosk_check_model_path_def
     gst_vosk_init_def load_model_clean_def gst_vosk_recognizer_new_def gst_vosk_get_rate_def
     gfloat_of_gint_def
     gst_vosk_init_denoise_def Let_def)

subsection \<open>Noise suppression touches the denoise fields only\<close>

lemma denoise_loop_body_frame:
  assumes "\<And>s v. f (s\<lparr>denoise_state := v\<rparr>) = f s"
    and "\<And>s v. f (s\<lparr>denoise_input_buffer := v\<rparr>) = f s"
    and "\<And>s v. f (s\<lparr>denoise_output_buffer := v\<rparr>) = f s"
    and "\<And>s v. f (s\<lparr>denoise_buffer_pos := v\<rparr>) = f s"
    and "\<And>s v. f (s\<lparr>denoise_output_pos := v\<rparr>) = f s"
  shows "f (fst (denoise_loop_body rnn buf st)) = f (fst st)"
  by (simp add: denoise_loop_body_def denoise_frame_complete_def
      gst_vosk_process_denoise_frame_def Let_def assms split: option.splits)



lemma denoise_loop_continue:
  "snd st < length buf \<Longrightarrow> denoise_buffer_pos (fst st) \<le> RNNOISE_FRAME_SIZE \<Longrightarrow>
   denoise_loop rnn buf st = denoise_loop rnn buf (denoise_loop_body rnn buf st)"
  by (subst denoise_loop.simps) simp

lemma denoise_loop_done:
  "\<not> (snd st < length buf \<and> denoise_buffer_pos (fst st) \<le> RNNOISE_FRAME_SIZE) \<Longrightarrow>
   denoise_loop rnn buf st = fst st"
  by (subst denoise_loop.simps) auto

lemma denoise_loop_frame:
  assumes "\<And>s v. f (s\<lparr>denoise_state := v\<rparr>) = f s"
    and "\<And>s v. f (s\<lparr>denoise_input_buffer := v\<rparr>) = f s"
    and "\<And>s v. f (s\<lparr>denoise_output_buffer := v\<rparr>) = f s"
    and "\<And>s v. f (s\<lparr>denoise_buffer_pos := v\<rparr>) = f s"
    and "\<And>s v. f (s\<lparr>denoise_output_pos := v\<rparr>) = f s"
  shows "f (denoise_loop rnn buf st) = f (fst st)"
proof (induction rnn buf st rule: denoise_loop.induct)
  case (1 rnn buf st)
  show ?case
  proof (cases "snd st < length buf \<and> denoise_buffer_pos (fst st) \<le> RNNOISE_FRAME_SIZE")
    case True
    then have "f (denoise_loop rnn buf st) = f (denoise_loop rnn buf (denoise_loop_body rnn buf st))"
      by (simp add: denoise_loop_continue)
    also have "\<dots> = f (fst (denoise_loop_body rnn buf st))"
      using True by (rule "1.IH")
    also have "\<dots> = f (fst st)"
      by (rule denoise_loop_body_frame) (rule assms)+
    finally show ?thesis .
  next
    case False
    then show ?thesis by (simp add: denoise_loop_done)
  qed
qed

lemma apply_denoise_frame:
  assumes "\<And>s v. f (s\<lparr>denoise_state := v\<rparr>) = f s"
    and "\<And>s v. f (s\<lparr>denoise_input_buffer := v\<rparr>) = f s"
    and "\<And>s v. f (s\<lparr>denoise_output_buffer := v\<rparr>) = f s"
    and "\<And>s v. f (s\<lparr>denoise_buffer_pos := v\<rparr>) = f s"
    and "\<And>s v. f (s\<lparr>denoise_output_pos := v\<rparr>) = f s"
  shows "f (fst (gst_vosk_apply_denoise rnn s buf)) = f s"
proof -
  have "f (fst (denoise_drain s1 buf)) = f s1" for s1
    by (simp add: denoise_drain_def Let_def assms)
  moreover have "f (denoise_loop rnn buf (s, 0)) = f s"
    using denoise_loop_frame[of f rnn buf "(s, 0)"] assms by simp
  ultimately show ?thesis
    by (simp add: gst_vosk_apply_denoise_def)
qed

lemmas apply_denoise_session [simp] =
  apply_denoise_frame [where f = engine_calls, simplified]
  apply_denoise_frame [where f = outputs, simplified]
  apply_denoise_frame [where f = recognizer, simplified]
  apply_denoise_frame [where f = prev_partial, simplified]
  apply_denoise_frame [where f = last_processed_time, simplified]
  apply_denoise_frame [where f = last_partial, simplified]
  apply_denoise_frame [where f = partial_time_interval, simplified]
  apply_denoise_frame [where f = use_signals, simplified]
  apply_denoise_frame [where f = rate, simplified]
  apply_denoise_frame [where f = current_operation, simplified]
  apply_denoise_frame [where f = cancelled, simplified]

subsection \<open>The effect of the result queries and of handling a buffer\<close>

lemma catch_up_skips_iff:
  "catch_up_skips current_time buf s \<longleftrightarrow>
     500000000 < sint (GST_CLOCK_DIFF (GST_BUFFER_PTS buf) current_time) \<and>
     sint (GST_CLOCK_DIFF (last_processed_time s) (GST_BUFFER_PTS buf)) < 200000000"
  by (simp add: catch_up_skips_def catching_up_def gint64_div_def GST_SECOND_def
      signed_divide_int_def)

lemma gst_vosk_result_msg_eq:
  assumes "recognizer s \<noteq> None"
  shows "gst_vosk_result_msg eng s =
    s\<lparr>engine_calls := engine_calls s @ [QueryResult],
      prev_partial := None,
      outputs := outputs s @
        (case result_json eng of
           None \<Rightarrow> []
         | Some txt \<Rightarrow>
             if txt = VOSK_EMPTY_TEXT_RESULT then []
             else [if use_signals s then ResultSignal txt else ResultMessage txt])\<rparr>"
proof -
  from assms obtain r where r: "recognizer s = Some r"
    by auto
  show ?thesis
  proof (cases "result_json eng")
    case None
    with r show ?thesis
      by (simp add: gst_vosk_result_msg_def gst_vosk_result_def Let_def)
  next
    case (Some payload)
    with r show ?thesis
      by (simp add: gst_vosk_result_msg_def gst_vosk_result_def gst_vosk_message_new_def Let_def)
  qed
qed


lemma gst_vosk_partial_result_eq:
  "gst_vosk_partial_result eng s =
    s\<lparr>engine_calls := engine_calls s @ [QueryPartialResult],
      prev_partial := (if partial_posted eng s then partial_result_json eng else prev_partial s),
      outputs := outputs s @
        (if partial_posted eng s
         then [if use_signals s then ResultSignal (the (partial_result_json eng))
               else ResultMessage (the (partial_result_json eng))]
         else [])\<rparr>"
proof (cases "partial_result_json eng")
  case None
  then show ?thesis
    by (simp add: gst_vosk_partial_result_def partial_posted_def Let_def)
next
  case (Some payload)
  then show ?thesis
    by (simp add: gst_vosk_partial_result_def partial_posted_def gst_vosk_message_new_def Let_def)
qed


lemma handle_buffer_skipped:
  assumes "buffer_map_ok buf" and "buffer_data buf \<noteq> []"
    and "accept_waveform eng = - 1 \<or> catch_up_skips current_time buf s"
  shows "fst (gst_vosk_handle_buffer rnn current_time eng buf s) =
    (fst (gst_vosk_apply_denoise rnn s (buffer_data buf)))
      \<lparr>engine_calls := engine_calls s @ [AcceptWaveform]\<rparr>"
  using assms by (auto simp: gst_vosk_handle_buffer_def Let_def catch_up_skips_def)

lemma handle_buffer_processed:
  assumes "buffer_map_ok buf" and "buffer_data buf \<noteq> []"
    and "accept_waveform eng \<noteq> - 1" and "\<not> catch_up_skips current_time buf s"
  shows "fst (gst_vosk_handle_buffer rnn current_time eng buf s) =
    handle_buffer_results eng buf
      ((fst (gst_vosk_apply_denoise rnn s (buffer_data buf)))
        \<lparr>engine_calls := engine_calls s @ [AcceptWaveform],
          last_processed_time := GST_BUFFER_PTS buf\<rparr>)"
  using assms by (auto simp: gst_vosk_handle_buffer_def Let_def catch_up_skips_def)


lemma apply_denoise_other_rate:
  "rate s \<noteq> 48000 \<Longrightarrow> gst_vosk_apply_denoise rnn s b = (s, b)"
  by (simp add: gst_vosk_apply_denoise_def)

lemmas run_buffer =
  gst_vosk_chain_def gst_vosk_handle_buffer_def catch_up_skips_iff handle_buffer_results_def
  gst_vosk_result_msg_eq gst_vosk_partial_result_eq partial_posted_def
  apply_denoise_other_rate activated_fields buffer_at_def engine_says_def GST_CLOCK_DIFF_def
  GST_CLOCK_TIME_NONE_def Let_def

lemma streaming_fields:
  "recognizer vosk_streaming = Some (VoskRecognizer (VoskModel DEFAULT_SPEECH_MODEL) 16000 0)"
  "rate vosk_streaming = 16000"
  "last_processed_time vosk_streaming = 0"
  "prev_partial vosk_streaming = None"
  "engine_calls vosk_streaming = [AcceptWaveform]"
  "outputs vosk_streaming = [AsyncStart, AsyncDone, ContinueState]"
  "partial_time_interval vosk_streaming = 0"
  "last_partial vosk_streaming = 0"
  "use_signals vosk_streaming = False"
  by (simp_all add: vosk_streaming_def run_buffer)

lemma heard_hello_fields:
  "recognizer vosk_heard_hello = Some (VoskRecognizer (VoskModel DEFAULT_SPEECH_MODEL) 16000 0)"
  "rate vosk_heard_hello = 16000"
  "last_processed_time vosk_heard_hello = 100000000"
  "prev_partial vosk_heard_hello = Some ''hello''"
  "engine_calls vosk_heard_hello = [AcceptWaveform, AcceptWaveform, QueryPartialResult]"
  "outputs vosk_heard_hello = [AsyncStart, AsyncDone, ContinueState, ResultMessage ''hello'']"
  "partial_time_interval vosk_heard_hello = 0"
  "last_partial vosk_heard_hello = 100000000"
  "use_signals vosk_heard_hello = False"
  by (simp_all add: vosk_heard_hello_def run_buffer streaming_fields
      VOSK_EMPTY_PARTIAL_RESULT_def VOSK_EMPTY_TEXT_RESULT_ALT_def)

lemma handle_buffer_no_partial_when_disabled:
  assumes "sint (partial_time_interval s) < 0"
  shows "filter (\<lambda>c. c = QueryPartialResult)
           (engine_calls (fst (gst_vosk_handle_buffer rnn current_time eng buf s)))
         = filter (\<lambda>c. c = QueryPartialResult) (engine_calls s)"
proof (cases "recognizer s")
  case None
  with assms show ?thesis
    by (simp add: gst_vosk_handle_buffer_def handle_buffer_results_def Let_def
        gst_vosk_result_msg_def gst_vosk_result_def)
next
  case (Some r)
  with assms show ?thesis
    by (simp add: gst_vosk_handle_buffer_def handle_buffer_results_def Let_def
        gst_vosk_result_msg_eq)
qed


lemma loading_fields:
  "cancelled vosk_loading = {}"
  "current_operation vosk_loading = Some 1"
  "recognizer vosk_loading = None"
  "outputs vosk_loading = [AsyncStart]"
  by (simp_all add: vosk_loading_def gst_vosk_check_model_path_def gst_vosk_init_def Let_def)

lemma restarted_fields:
  "cancelled (pipeline_restarted vosk_loading) = {1}"
  "current_operation (pipeline_restarted vosk_loading) = Some 2"
  "recognizer (pipeline_restarted vosk_loading) = None"
  "outputs (pipeline_restarted vosk_loading) = [AsyncStart, AsyncStart]"
  by (simp_all add: pipeline_restarted_def change_state_to_ready_def gst_vosk_reset_def
      gst_vosk_cancel_model_loading_def gst_vosk_check_model_path_def loading_fields
      vosk_loading_def gst_vosk_init_def Let_def)

lemma to_ready_fields:
  "cancelled (change_state_to_ready vosk_loading) = {1}"
  "current_operation (change_state_to_ready vosk_loading) = None"
  "recognizer (change_state_to_ready vosk_loading) = None"
  "outputs (change_state_to_ready vosk_loading) = [AsyncStart]"
  by (simp_all add: change_state_to_ready_def gst_vosk_reset_def
      gst_vosk_cancel_model_loading_def loading_fields Let_def)

lemma first_worker_done_fields:
  "cancelled first_worker_done = {1}"
  "current_operation first_worker_done = None"
  "recognizer first_worker_done = None"
  "outputs first_worker_done = [AsyncStart, AsyncStart]"
  by (simp_all add: first_worker_done_def gst_vosk_load_model_async_def load_model_clean_def
      Let_def loading_fields restarted_fields)

lemma deactivated_fields:
  "cancelled (change_state_to_ready first_worker_done) = {1}"
  "current_operation (change_state_to_ready first_worker_done) = None"
  "recognizer (change_state_to_ready first_worker_done) = None"
  "outputs (change_state_to_ready first_worker_done) = [AsyncStart, AsyncStart]"
  "enable_denoise (change_state_to_ready first_worker_done) = True"
  "denoise_initialized (change_state_to_ready first_worker_done) = False"
  "alternatives (change_state_to_ready first_worker_done) = 0"
  by (simp_all add: change_state_to_ready_def gst_vosk_reset_def
      gst_vosk_cancel_model_loading_def first_worker_done_fields Let_def
      first_worker_done_def gst_vosk_load_model_async_def load_model_clean_def
      pipeline_restarted_def gst_vosk_check_model_path_def vosk_loading_def gst_vosk_init_def)

subsection \<open>The accumulation loop\<close>

lemma array_write_length:
  "off + length ys \<le> length xs \<Longrightarrow> length (array_write xs off ys) = length xs"
  by (simp add: array_write_def)

lemma array_write_take:
  "k \<le> off \<Longrightarrow> off \<le> length xs \<Longrightarrow> take k (array_write xs off ys) = take k xs"
  by (simp add: array_write_def min_def)

lemma process_frame_effect:
  assumes "denoise_active s"
    and "length (denoise_input_buffer s) = denoise_buffer_size s"
    and "RNNOISE_FRAME_SIZE \<le> denoise_buffer_size s"
  shows "rnnoise_calls (gst_vosk_process_denoise_frame rnn s) = rnnoise_calls s + 1"
    and "denoise_active (gst_vosk_process_denoise_frame rnn s)"
    and "length (denoise_input_buffer (gst_vosk_process_denoise_frame rnn s))
           = denoise_buffer_size s"
    and "denoise_output_buffer (gst_vosk_process_denoise_frame rnn s) = denoise_output_buffer s"
    and "denoise_output_pos (gst_vosk_process_denoise_frame rnn s) = denoise_output_pos s"
    and "denoise_buffer_size (gst_vosk_process_denoise_frame rnn s) = denoise_buffer_size s"
    and "denoise_buffer_pos (gst_vosk_process_denoise_frame rnn s) = denoise_buffer_pos s"
proof -
  from assms(1) obtain frames where f: "denoise_state s = Some frames"
    by (auto simp: denoise_active_def)
  from assms(1) have i: "denoise_initialized s" "enable_denoise s" "rate s = 48000"
    by (simp_all add: denoise_active_def)
  have eq: "gst_vosk_process_denoise_frame rnn s =
      s\<lparr>denoise_state := Some (frames @ [take RNNOISE_FRAME_SIZE (denoise_input_buffer s)]),
        denoise_input_buffer :=
          array_write (denoise_input_buffer s) 0
            (map (rnn frames (take RNNOISE_FRAME_SIZE (denoise_input_buffer s)))
               [0..<RNNOISE_FRAME_SIZE])\<rparr>"
    by (simp add: gst_vosk_process_denoise_frame_def f i Let_def)
  show "rnnoise_calls (gst_vosk_process_denoise_frame rnn s) = rnnoise_calls s + 1"
    by (simp add: eq rnnoise_calls_def f)
  show "denoise_active (gst_vosk_process_denoise_frame rnn s)"
    by (simp add: eq denoise_active_def i)
  show "length (denoise_input_buffer (gst_vosk_process_denoise_frame rnn s))
           = denoise_buffer_size s"
    using assms(2,3) by (simp add: eq array_write_length)
  show "denoise_output_buffer (gst_vosk_process_denoise_frame rnn s) = denoise_output_buffer s"
    and "denoise_output_pos (gst_vosk_process_denoise_frame rnn s) = denoise_output_pos s"
    and "denoise_buffer_size (gst_vosk_process_denoise_frame rnn s) = denoise_buffer_size s"
    and "denoise_buffer_pos (gst_vosk_process_denoise_frame rnn s) = denoise_buffer_pos s"
    by (simp_all add: eq)
qed


lemma frame_complete_effect:
  assumes "denoise_active s"
    and "length (denoise_input_buffer s) = denoise_buffer_size s"
    and "length (denoise_output_buffer s) = denoise_buffer_size s"
    and "RNNOISE_FRAME_SIZE \<le> denoise_buffer_size s"
    and "denoise_output_pos s \<le> denoise_buffer_size s"
  shows "rnnoise_calls (denoise_frame_complete rnn s) = rnnoise_calls s + 1"
    and "denoise_active (denoise_frame_complete rnn s)"
    and "denoise_wf (denoise_frame_complete rnn s)"
    and "denoise_buffer_size (denoise_frame_complete rnn s) = denoise_buffer_size s"
    and "denoise_buffer_pos (denoise_frame_complete rnn s) = 0"
    and "denoise_output_pos s + RNNOISE_FRAME_SIZE \<le> denoise_buffer_size s \<Longrightarrow>
           denoise_output_pos (denoise_frame_complete rnn s)
             = denoise_output_pos s + RNNOISE_FRAME_SIZE \<and>
           take (denoise_output_pos s) (denoise_output_buffer (denoise_frame_complete rnn s))
             = take (denoise_output_pos s) (denoise_output_buffer s)"
    and "\<not> denoise_output_pos s + RNNOISE_FRAME_SIZE \<le> denoise_buffer_size s \<Longrightarrow>
           denoise_output_pos (denoise_frame_complete rnn s) = denoise_output_pos s \<and>
           denoise_output_buffer (denoise_frame_complete rnn s) = denoise_output_buffer s"
proof -
  note p = process_frame_effect [OF assms(1,2,4), of rnn]
  define s1 where "s1 = gst_vosk_process_denoise_frame rnn s"
  note q = p [folded s1_def]
  have act: "enable_denoise s1" "denoise_initialized s1" "rate s1 = 48000" "denoise_state s1 \<noteq> None"
    using q(2) by (simp_all add: denoise_active_def)
  show "rnnoise_calls (denoise_frame_complete rnn s) = rnnoise_calls s + 1"
    using q(1) by (simp add: denoise_frame_complete_def Let_def rnnoise_calls_def s1_def [symmetric])
  show "denoise_active (denoise_frame_complete rnn s)"
    using act by (simp add: denoise_frame_complete_def Let_def denoise_active_def s1_def [symmetric])
  show "denoise_wf (denoise_frame_complete rnn s)"
    using q(3-6) assms(3-5)
    by (simp add: denoise_frame_complete_def Let_def denoise_wf_def s1_def [symmetric]
        array_write_length RNNOISE_FRAME_SIZE_def)
  show "denoise_buffer_size (denoise_frame_complete rnn s) = denoise_buffer_size s"
    using q(6) by (simp add: denoise_frame_complete_def Let_def s1_def [symmetric])
  show "denoise_buffer_pos (denoise_frame_complete rnn s) = 0"
    by (simp add: denoise_frame_complete_def Let_def)
  show "denoise_output_pos (denoise_frame_complete rnn s)
             = denoise_output_pos s + RNNOISE_FRAME_SIZE \<and>
           take (denoise_output_pos s) (denoise_output_buffer (denoise_frame_complete rnn s))
             = take (denoise_output_pos s) (denoise_output_buffer s)"
    if "denoise_output_pos s + RNNOISE_FRAME_SIZE \<le> denoise_buffer_size s"
    using that q(4-6) assms(3)
    by (simp add: denoise_frame_complete_def Let_def s1_def [symmetric] array_write_take)
  show "denoise_output_pos (denoise_frame_complete rnn s) = denoise_output_pos s \<and>
           denoise_output_buffer (denoise_frame_complete rnn s) = denoise_output_buffer s"
    if "\<not> denoise_output_pos s + RNNOISE_FRAME_SIZE \<le> denoise_buffer_size s"
    using that q(4-6)
    by (simp add: denoise_frame_complete_def Let_def s1_def [symmetric])
qed


lemma loop_body_effect:
  fixes s :: vosk and buf :: "gint16 list" and samples_read :: nat and rnn :: rnnoise
  defines "c \<equiv> min (RNNOISE_FRAME_SIZE - denoise_buffer_pos s) (length buf - samples_read)"
  defines "s' \<equiv> fst (denoise_loop_body rnn buf (s, samples_read))"
  assumes act: "denoise_active s" and wf: "denoise_wf s" and rd: "samples_read < length buf"
  shows "snd (denoise_loop_body rnn buf (s, samples_read)) = samples_read + c"
    and "denoise_active s'"
    and "denoise_wf s'"
    and "denoise_buffer_size s' = denoise_buffer_size s"
    and "denoise_buffer_pos s + c = RNNOISE_FRAME_SIZE \<Longrightarrow>
           rnnoise_calls s' = rnnoise_calls s + 1 \<and> denoise_buffer_pos s' = 0"
    and "denoise_buffer_pos s + c \<noteq> RNNOISE_FRAME_SIZE \<Longrightarrow>
           rnnoise_calls s' = rnnoise_calls s \<and>
           denoise_buffer_pos s' = denoise_buffer_pos s + c \<and>
           denoise_output_pos s' = denoise_output_pos s \<and>
           denoise_output_buffer s' = denoise_output_buffer s"
    and "denoise_buffer_pos s + c = RNNOISE_FRAME_SIZE \<Longrightarrow>
         denoise_output_pos s + RNNOISE_FRAME_SIZE \<le> denoise_buffer_size s \<Longrightarrow>
           denoise_output_pos s' = denoise_output_pos s + RNNOISE_FRAME_SIZE \<and>
           take (denoise_output_pos s) (denoise_output_buffer s')
             = take (denoise_output_pos s) (denoise_output_buffer s)"
    and "denoise_buffer_pos s + c = RNNOISE_FRAME_SIZE \<Longrightarrow>
         \<not> denoise_output_pos s + RNNOISE_FRAME_SIZE \<le> denoise_buffer_size s \<Longrightarrow>
           denoise_output_pos s' = denoise_output_pos s \<and>
           denoise_output_buffer s' = denoise_output_buffer s"
proof -
  define s1 where "s1 =
    s\<lparr>denoise_input_buffer :=
        array_write (denoise_input_buffer s) (denoise_buffer_pos s)
          (gst_vosk_convert_s16_to_float (take c (drop samples_read buf))),
      denoise_buffer_pos := denoise_buffer_pos s + c\<rparr>"
  have body: "denoise_loop_body rnn buf (s, samples_read) =
      (if denoise_buffer_pos s + c = RNNOISE_FRAME_SIZE then denoise_frame_complete rnn s1 else s1,
       samples_read + c)"
    by (simp add: denoise_loop_body_def Let_def s1_def c_def)
  have s': "s' = (if denoise_buffer_pos s + c = RNNOISE_FRAME_SIZE
      then denoise_frame_complete rnn s1 else s1)"
    by (simp add: s'_def body)
  have c_le: "c \<le> length buf - samples_read" "denoise_buffer_pos s + c \<le> RNNOISE_FRAME_SIZE"
    using wf by (auto simp: c_def denoise_wf_def)
  have len_in: "length (denoise_input_buffer s1) = denoise_buffer_size s1"
    using wf c_le
    by (simp add: s1_def denoise_wf_def array_write_length gst_vosk_convert_s16_to_float_def)
  have act1: "denoise_active s1"
    using act by (simp add: s1_def denoise_active_def)
  have keep: "denoise_output_buffer s1 = denoise_output_buffer s"
    "denoise_output_pos s1 = denoise_output_pos s"
    "denoise_buffer_size s1 = denoise_buffer_size s"
    "rnnoise_calls s1 = rnnoise_calls s"
    "denoise_buffer_pos s1 = denoise_buffer_pos s + c"
    by (simp_all add: s1_def rnnoise_calls_def)
  have shape1: "length (denoise_output_buffer s1) = denoise_buffer_size s1"
    "RNNOISE_FRAME_SIZE \<le> denoise_buffer_size s1"
    "denoise_output_pos s1 \<le> denoise_buffer_size s1"
    using wf by (simp_all add: keep denoise_wf_def)
  note fc = frame_complete_effect [OF act1 len_in shape1, of rnn]
  show "snd (denoise_loop_body rnn buf (s, samples_read)) = samples_read + c"
    by (simp add: body)
  show "denoise_active s'"
    using act1 fc(2) by (simp add: s')
  show "denoise_wf s'"
  proof (cases "denoise_buffer_pos s + c = RNNOISE_FRAME_SIZE")
    case True
    then show ?thesis using fc(3) by (simp add: s')
  next
    case False
    with c_le len_in shape1 show ?thesis
      by (simp add: s' denoise_wf_def keep)
  qed
  show "denoise_buffer_size s' = denoise_buffer_size s"
    using fc(4) by (simp add: s' keep)
  show "rnnoise_calls s' = rnnoise_calls s + 1 \<and> denoise_buffer_pos s' = 0"
    if "denoise_buffer_pos s + c = RNNOISE_FRAME_SIZE"
    using that fc(1,5) by (simp add: s' keep)
  show "rnnoise_calls s' = rnnoise_calls s \<and>
           denoise_buffer_pos s' = denoise_buffer_pos s + c \<and>
           denoise_output_pos s' = denoise_output_pos s \<and>
           denoise_output_buffer s' = denoise_output_buffer s"
    if "denoise_buffer_pos s + c \<noteq> RNNOISE_FRAME_SIZE"
    using that by (simp add: s' keep)
  show "denoise_output_pos s' = denoise_output_pos s + RNNOISE_FRAME_SIZE \<and>
           take (denoise_output_pos s) (denoise_output_buffer s')
             = take (denoise_output_pos s) (denoise_output_buffer s)"
    if "denoise_buffer_pos s + c = RNNOISE_FRAME_SIZE"
      and "denoise_output_pos s + RNNOISE_FRAME_SIZE \<le> denoise_buffer_size s"
    using that fc(6) by (simp add: s' keep)
  show "denoise_output_pos s' = denoise_output_pos s \<and>
           denoise_output_buffer s' = denoise_output_buffer s"
    if "denoise_buffer_pos s + c = RNNOISE_FRAME_SIZE"
      and "\<not> denoise_output_pos s + RNNOISE_FRAME_SIZE \<le> denoise_buffer_size s"
    using that fc(7) by (simp add: s' keep)
qed


lemma frames_step_complete:
  fixes p r n k o' :: nat
  assumes "p + min (480 - p) (n - r) = 480" and "r < n" and "p < 480"
  shows "(p + (n - r)) div 480 = Suc ((n - (r + min (480 - p) (n - r))) div 480)"
    and "(p + (n - r)) mod 480 = (n - (r + min (480 - p) (n - r))) mod 480"
proof -
  have m: "min (480 - p) (n - r) = 480 - p"
    using assms by (simp add: min_def split: if_splits)
  have "p + (n - r) = 480 + (n - (r + (480 - p)))"
    using assms m by (simp add: min_def split: if_splits)
  then show "(p + (n - r)) div 480 = Suc ((n - (r + min (480 - p) (n - r))) div 480)"
    and "(p + (n - r)) mod 480 = (n - (r + min (480 - p) (n - r))) mod 480"
    by (simp_all add: m)
qed

lemma frames_step_partial:
  fixes p r n :: nat
  assumes "p + min (480 - p) (n - r) \<noteq> 480" and "r < n" and "p < 480"
  shows "min (480 - p) (n - r) = n - r" and "p + (n - r) < 480"
  using assms by (simp_all add: min_def split: if_splits)

lemma room_step:
  fixes z p :: nat
  assumes "p + 480 \<le> z"
  shows "(z - p) div 480 = Suc ((z - (p + 480)) div 480)"
proof -
  have e: "z - p = (z - (p + 480)) + 480"
    using assms by arith
  show ?thesis
    by (subst e) simp
qed

lemma denoise_loop_effect:
  assumes "denoise_active (fst st)" and "denoise_wf (fst st)" and "snd st \<le> length buf"
  shows "denoise_active (denoise_loop rnn buf st) \<and>
    denoise_wf (denoise_loop rnn buf st) \<and>
    denoise_buffer_size (denoise_loop rnn buf st) = denoise_buffer_size (fst st) \<and>
    rnnoise_calls (denoise_loop rnn buf st)
      = rnnoise_calls (fst st)
        + (denoise_buffer_pos (fst st) + (length buf - snd st)) div RNNOISE_FRAME_SIZE \<and>
    denoise_buffer_pos (denoise_loop rnn buf st)
      = (denoise_buffer_pos (fst st) + (length buf - snd st)) mod RNNOISE_FRAME_SIZE \<and>
    denoise_output_pos (denoise_loop rnn buf st)
      = denoise_output_pos (fst st)
        + RNNOISE_FRAME_SIZE *
          min ((denoise_buffer_pos (fst st) + (length buf - snd st)) div RNNOISE_FRAME_SIZE)
              ((denoise_buffer_size (fst st) - denoise_output_pos (fst st)) div RNNOISE_FRAME_SIZE) \<and>
    take (denoise_output_pos (fst st)) (denoise_output_buffer (denoise_loop rnn buf st))
      = take (denoise_output_pos (fst st)) (denoise_output_buffer (fst st))"
  using assms
proof (induction rnn buf st rule: denoise_loop.induct)
  case (1 rnn buf st)
  obtain s r where st: "st = (s, r)"
    by (cases st)
  have act: "denoise_active s" and wf: "denoise_wf s" and r_le: "r \<le> length buf"
    using "1.prems" by (simp_all add: st)
  have p_lt: "denoise_buffer_pos s < 480" and o_le: "denoise_output_pos s \<le> denoise_buffer_size s"
    using wf by (simp_all add: denoise_wf_def RNNOISE_FRAME_SIZE_def)
  show ?case
  proof (cases "r < length buf")
    case False
    then have "denoise_loop rnn buf st = s"
      by (simp add: denoise_loop_done st)
    moreover from False r_le have "length buf - r = 0"
      by simp
    ultimately show ?thesis
      using act wf p_lt by (simp add: st RNNOISE_FRAME_SIZE_def)
  next
    case True
    define c where "c = min (RNNOISE_FRAME_SIZE - denoise_buffer_pos s) (length buf - r)"
    define s' where "s' = fst (denoise_loop_body rnn buf (s, r))"
    note b = loop_body_effect [OF act wf True, of rnn, folded c_def s'_def]
    have c480: "c = min (480 - denoise_buffer_pos s) (length buf - r)"
      by (simp add: c_def RNNOISE_FRAME_SIZE_def)
    have body: "denoise_loop_body rnn buf st = (s', r + c)"
      using b(1) by (simp add: st s'_def prod_eq_iff)
    define L where "L = denoise_loop rnn buf (s', r + c)"
    have body': "denoise_loop_body rnn buf (s, r) = (s', r + c)"
      using body by (simp only: st)
    have "denoise_loop rnn buf (s, r) = denoise_loop rnn buf (denoise_loop_body rnn buf (s, r))"
      using True p_lt by (intro denoise_loop_continue) (simp_all add: RNNOISE_FRAME_SIZE_def)
    then have res: "denoise_loop rnn buf (s, r) = L"
      by (simp only: body' L_def)
    have rc: "r + c \<le> length buf"
      using True by (simp add: c_def)
    have "snd st < length buf \<and> denoise_buffer_pos (fst st) \<le> RNNOISE_FRAME_SIZE"
      using True p_lt by (simp add: st RNNOISE_FRAME_SIZE_def)
    moreover have "denoise_active (fst (denoise_loop_body rnn buf st))"
      "denoise_wf (fst (denoise_loop_body rnn buf st))"
      "snd (denoise_loop_body rnn buf st) \<le> length buf"
      using b(2,3) rc by (simp_all add: body)
    ultimately have IH0: "denoise_active (denoise_loop rnn buf (denoise_loop_body rnn buf st)) \<and>
      denoise_wf (denoise_loop rnn buf (denoise_loop_body rnn buf st)) \<and>
      denoise_buffer_size (denoise_loop rnn buf (denoise_loop_body rnn buf st))
        = denoise_buffer_size (fst (denoise_loop_body rnn buf st)) \<and>
      rnnoise_calls (denoise_loop rnn buf (denoise_loop_body rnn buf st))
        = rnnoise_calls (fst (denoise_loop_body rnn buf st))
          + (denoise_buffer_pos (fst (denoise_loop_body rnn buf st))
             + (length buf - snd (denoise_loop_body rnn buf st))) div RNNOISE_FRAME_SIZE \<and>
      denoise_buffer_pos (denoise_loop rnn buf (denoise_loop_body rnn buf st))
        = (denoise_buffer_pos (fst (denoise_loop_body rnn buf st))
           + (length buf - snd (denoise_loop_body rnn buf st))) mod RNNOISE_FRAME_SIZE \<and>
      denoise_output_pos (denoise_loop rnn buf (denoise_loop_body rnn buf st))
        = denoise_output_pos (fst (denoise_loop_body rnn buf st))
          + RNNOISE_FRAME_SIZE *
            min ((denoise_buffer_pos (fst (denoise_loop_body rnn buf st))
                  + (length buf - snd (denoise_loop_body rnn buf st))) div RNNOISE_FRAME_SIZE)
                ((denoise_buffer_size (fst (denoise_loop_body rnn buf st))
                  - denoise_output_pos (fst (denoise_loop_body rnn buf st))) div RNNOISE_FRAME_SIZE) \<and>
      take (denoise_output_pos (fst (denoise_loop_body rnn buf st)))
          (denoise_output_buffer (denoise_loop rnn buf (denoise_loop_body rnn buf st)))
        = take (denoise_output_pos (fst (denoise_loop_body rnn buf st)))
            (denoise_output_buffer (fst (denoise_loop_body rnn buf st)))"
      by (rule "1.IH")
    have IH: "denoise_active L \<and>
      denoise_wf L \<and>
      denoise_buffer_size L = denoise_buffer_size s' \<and>
      rnnoise_calls L
        = rnnoise_calls s' + (denoise_buffer_pos s' + (length buf - (r + c))) div 480 \<and>
      denoise_buffer_pos L
        = (denoise_buffer_pos s' + (length buf - (r + c))) mod 480 \<and>
      denoise_output_pos L
        = denoise_output_pos s'
          + 480 *
            min ((denoise_buffer_pos s' + (length buf - (r + c))) div 480)
                ((denoise_buffer_size s' - denoise_output_pos s') div 480) \<and>
      take (denoise_output_pos s') (denoise_output_buffer L)
        = take (denoise_output_pos s') (denoise_output_buffer s')"
      using IH0 unfolding body fst_conv snd_conv L_def [symmetric] RNNOISE_FRAME_SIZE_def .
    show ?thesis
    proof (cases "denoise_buffer_pos s + c = RNNOISE_FRAME_SIZE")
      case full: True
      then have full480: "denoise_buffer_pos s + min (480 - denoise_buffer_pos s) (length buf - r) = 480"
        by (simp add: c480 RNNOISE_FRAME_SIZE_def)
      note fs = frames_step_complete [OF full480 True p_lt, folded c480]
      from b(5) [OF full] have calls: "rnnoise_calls s' = rnnoise_calls s + 1"
        and pos0: "denoise_buffer_pos s' = 0"
        by simp_all
      show ?thesis
      proof (cases "denoise_output_pos s + RNNOISE_FRAME_SIZE \<le> denoise_buffer_size s")
        case fits: True
        from b(7) [OF full fits] have o': "denoise_output_pos s' = denoise_output_pos s + 480"
          and keep: "take (denoise_output_pos s) (denoise_output_buffer s')
             = take (denoise_output_pos s) (denoise_output_buffer s)"
          by (simp_all add: RNNOISE_FRAME_SIZE_def)
        have fit_div: "(denoise_buffer_size s - denoise_output_pos s) div 480
            = Suc ((denoise_buffer_size s - (denoise_output_pos s + 480)) div 480)"
          using fits by (intro room_step) (simp add: RNNOISE_FRAME_SIZE_def)
        have "take (denoise_output_pos s) (denoise_output_buffer L)
            = take (denoise_output_pos s) (take (denoise_output_pos s') (denoise_output_buffer L))"
          by (simp add: o' min_def)
        also have "\<dots> = take (denoise_output_pos s) (take (denoise_output_pos s') (denoise_output_buffer s'))"
          using IH by simp
        also have "\<dots> = take (denoise_output_pos s) (denoise_output_buffer s)"
          by (simp add: o' min_def keep)
        finally have pre: "take (denoise_output_pos s) (denoise_output_buffer L)
            = take (denoise_output_pos s) (denoise_output_buffer s)" .
        show ?thesis
          using IH pre
          by (simp add: st res calls pos0 o' b(4) fs fit_div RNNOISE_FRAME_SIZE_def)
      next
        case nofit: False
        from b(8) [OF full nofit] have o': "denoise_output_pos s' = denoise_output_pos s"
          and keep: "denoise_output_buffer s' = denoise_output_buffer s"
          by simp_all
        have fit0: "(denoise_buffer_size s - denoise_output_pos s) div 480 = 0"
          using nofit by (simp add: RNNOISE_FRAME_SIZE_def)
        show ?thesis
          using IH
          by (simp add: st res calls pos0 o' keep b(4) fs fit0 RNNOISE_FRAME_SIZE_def)
      qed
    next
      case part: False
      then have part480: "denoise_buffer_pos s + min (480 - denoise_buffer_pos s) (length buf - r) \<noteq> 480"
        by (simp add: c480 RNNOISE_FRAME_SIZE_def)
      note fp = frames_step_partial [OF part480 True p_lt, folded c480]
      from b(6) [OF part] have same: "rnnoise_calls s' = rnnoise_calls s"
        "denoise_buffer_pos s' = denoise_buffer_pos s + c"
        "denoise_output_pos s' = denoise_output_pos s"
        "denoise_output_buffer s' = denoise_output_buffer s"
        by simp_all
      have rest: "length buf - (r + c) = 0"
        using fp(1) True by simp
      show ?thesis
        using IH fp
        by (simp add: st res same b(4) rest RNNOISE_FRAME_SIZE_def)
    qed
  qed
qed

subsection \<open>What the accumulation loop stores\<close>

lemma frame_complete_content:
  assumes "denoise_active s" and "denoise_state s = Some F"
    and "length (denoise_input_buffer s) = denoise_buffer_size s"
    and "length (denoise_output_buffer s) = denoise_buffer_size s"
    and "RNNOISE_FRAME_SIZE \<le> denoise_buffer_size s"
    and "denoise_output_pos s \<le> denoise_buffer_size s"
  shows "denoise_state (denoise_frame_complete rnn s)
           = Some (F @ [take 480 (denoise_input_buffer s)])"
    and "denoise_output_pos s + RNNOISE_FRAME_SIZE \<le> denoise_buffer_size s \<Longrightarrow>
           output_queue (denoise_frame_complete rnn s)
             = output_queue s @ map (rnn F (take 480 (denoise_input_buffer s))) [0..<480]"
proof -
  from assms(1) have i: "denoise_initialized s"
    by (simp add: denoise_active_def)
  define clean where "clean = map (rnn F (take 480 (denoise_input_buffer s))) [0..<480]"
  have lc: "length clean = 480"
    by (simp add: clean_def)
  define s1 where "s1 = gst_vosk_process_denoise_frame rnn s"
  have eq: "s1 =
      s\<lparr>denoise_state := Some (F @ [take 480 (denoise_input_buffer s)]),
        denoise_input_buffer := array_write (denoise_input_buffer s) 0 clean\<rparr>"
    by (simp add: s1_def gst_vosk_process_denoise_frame_def assms(2) i Let_def clean_def
        RNNOISE_FRAME_SIZE_def)
  have tk: "take 480 (denoise_input_buffer s1) = clean"
    by (simp add: eq array_write_def lc)
  show "denoise_state (denoise_frame_complete rnn s)
           = Some (F @ [take 480 (denoise_input_buffer s)])"
    by (simp add: denoise_frame_complete_def Let_def s1_def [symmetric]) (simp add: eq)
  show "output_queue (denoise_frame_complete rnn s)
             = output_queue s @ map (rnn F (take 480 (denoise_input_buffer s))) [0..<480]"
    if "denoise_output_pos s + RNNOISE_FRAME_SIZE \<le> denoise_buffer_size s"
  proof -
    have k: "denoise_output_pos s1 = denoise_output_pos s"
      "denoise_buffer_size s1 = denoise_buffer_size s"
      "denoise_output_buffer s1 = denoise_output_buffer s"
      by (simp_all add: eq)
    have "output_queue (denoise_frame_complete rnn s)
        = take (denoise_output_pos s + 480)
            (array_write (denoise_output_buffer s) (denoise_output_pos s) clean)"
      using that
      by (simp add: denoise_frame_complete_def Let_def s1_def [symmetric] output_queue_def k tk
          RNNOISE_FRAME_SIZE_def)
    also have "\<dots> = take (denoise_output_pos s) (denoise_output_buffer s) @ clean"
      using that assms(4) by (simp add: array_write_def lc RNNOISE_FRAME_SIZE_def)
    finally show ?thesis
      by (simp add: output_queue_def clean_def)
  qed
qed

lemma loop_body_content:
  fixes s :: vosk and buf :: "gint16 list" and samples_read :: nat and rnn :: rnnoise
  defines "c \<equiv> min (RNNOISE_FRAME_SIZE - denoise_buffer_pos s) (length buf - samples_read)"
  defines "s' \<equiv> fst (denoise_loop_body rnn buf (s, samples_read))"
  defines "acc \<equiv> take (denoise_buffer_pos s) (denoise_input_buffer s)
                   @ map (\<lambda>x. real_of_int (sint x)) (take c (drop samples_read buf))"
  assumes act: "denoise_active s" and wf: "denoise_wf s" and rd: "samples_read < length buf"
    and F: "denoise_state s = Some F"
  shows "denoise_buffer_pos s + c = RNNOISE_FRAME_SIZE \<Longrightarrow>
           denoise_state s' = Some (F @ [acc])"
    and "denoise_buffer_pos s + c = RNNOISE_FRAME_SIZE \<Longrightarrow>
         denoise_output_pos s + RNNOISE_FRAME_SIZE \<le> denoise_buffer_size s \<Longrightarrow>
           output_queue s' = output_queue s @ map (rnn F acc) [0..<480]"
    and "denoise_buffer_pos s + c \<noteq> RNNOISE_FRAME_SIZE \<Longrightarrow>
           denoise_state s' = Some F \<and>
           take (denoise_buffer_pos s + c) (denoise_input_buffer s') = acc"
proof -
  define s1 where "s1 =
    s\<lparr>denoise_input_buffer :=
        array_write (denoise_input_buffer s) (denoise_buffer_pos s)
          (gst_vosk_convert_s16_to_float (take c (drop samples_read buf))),
      denoise_buffer_pos := denoise_buffer_pos s + c\<rparr>"
  have body: "denoise_loop_body rnn buf (s, samples_read) =
      (if denoise_buffer_pos s + c = RNNOISE_FRAME_SIZE then denoise_frame_complete rnn s1 else s1,
       samples_read + c)"
    by (simp add: denoise_loop_body_def Let_def s1_def c_def)
  have s': "s' = (if denoise_buffer_pos s + c = RNNOISE_FRAME_SIZE
      then denoise_frame_complete rnn s1 else s1)"
    by (simp add: s'_def body)
  have c_le: "c \<le> length buf - samples_read" "denoise_buffer_pos s + c \<le> RNNOISE_FRAME_SIZE"
    using wf by (auto simp: c_def denoise_wf_def)
  have shape: "length (denoise_input_buffer s) = denoise_buffer_size s"
    "RNNOISE_FRAME_SIZE \<le> denoise_buffer_size s"
    "denoise_buffer_pos s < RNNOISE_FRAME_SIZE"
    using wf by (simp_all add: denoise_wf_def)
  have lconv: "length (gst_vosk_convert_s16_to_float (take c (drop samples_read buf))) = c"
    using c_le by (simp add: gst_vosk_convert_s16_to_float_def)
  have len_in: "length (denoise_input_buffer s1) = denoise_buffer_size s1"
    using wf c_le
    by (simp add: s1_def denoise_wf_def array_write_length gst_vosk_convert_s16_to_float_def)
  have tk: "take (denoise_buffer_pos s + c) (denoise_input_buffer s1) = acc"
    using shape c_le lconv
    by (simp add: s1_def array_write_def acc_def gst_vosk_convert_s16_to_float_def)
  have act1: "denoise_active s1"
    using act by (simp add: s1_def denoise_active_def)
  have F1: "denoise_state s1 = Some F"
    using F by (simp add: s1_def)
  have keep: "denoise_output_buffer s1 = denoise_output_buffer s"
    "denoise_output_pos s1 = denoise_output_pos s"
    "denoise_buffer_size s1 = denoise_buffer_size s"
    by (simp_all add: s1_def)
  have shape1: "length (denoise_output_buffer s1) = denoise_buffer_size s1"
    "RNNOISE_FRAME_SIZE \<le> denoise_buffer_size s1"
    "denoise_output_pos s1 \<le> denoise_buffer_size s1"
    using wf by (simp_all add: keep denoise_wf_def)
  note fc = frame_complete_content [OF act1 F1 len_in shape1, of rnn]
  show "denoise_state s' = Some (F @ [acc])"
    if "denoise_buffer_pos s + c = RNNOISE_FRAME_SIZE"
    using that fc(1) tk by (simp add: s' RNNOISE_FRAME_SIZE_def)
  show "output_queue s' = output_queue s @ map (rnn F acc) [0..<480]"
    if "denoise_buffer_pos s + c = RNNOISE_FRAME_SIZE"
      and "denoise_output_pos s + RNNOISE_FRAME_SIZE \<le> denoise_buffer_size s"
    using that fc(2) tk by (simp add: s' keep output_queue_def RNNOISE_FRAME_SIZE_def)
  show "denoise_state s' = Some F \<and>
           take (denoise_buffer_pos s + c) (denoise_input_buffer s') = acc"
    if "denoise_buffer_pos s + c \<noteq> RNNOISE_FRAME_SIZE"
    using that F1 tk by (simp add: s')
qed


lemma frames_shift:
  "map (\<lambda>j. take 480 (drop (480 * j) xs)) [0..<Suc n]
     = take 480 xs # map (\<lambda>j. take 480 (drop (480 * j) (drop 480 xs))) [0..<n]"
  by (simp add: map_upt_Suc add.commute del: upt_Suc)

lemma clean_shift:
  "concat (map (\<lambda>j. map (rnn (F @ map (\<lambda>i. take 480 (drop (480 * i) xs)) [0..<j])
                               (take 480 (drop (480 * j) xs))) [0..<480]) [0..<Suc m])
     = map (rnn F (take 480 xs)) [0..<480]
       @ concat (map (\<lambda>j. map (rnn ((F @ [take 480 xs])
                                        @ map (\<lambda>i. take 480 (drop (480 * i) (drop 480 xs))) [0..<j])
                                      (take 480 (drop (480 * j) (drop 480 xs)))) [0..<480]) [0..<m])"
proof -
  have "map (\<lambda>j. map (rnn (F @ map (\<lambda>i. take 480 (drop (480 * i) xs)) [0..<j])
                               (take 480 (drop (480 * j) xs))) [0..<480]) [0..<Suc m]
      = map (rnn F (take 480 xs)) [0..<480]
        # map (\<lambda>j. map (rnn (F @ map (\<lambda>i. take 480 (drop (480 * i) xs)) [0..<Suc j])
                               (take 480 (drop (480 * Suc j) xs))) [0..<480]) [0..<m]"
    by (subst map_upt_Suc) simp
  also have "\<dots> = map (rnn F (take 480 xs)) [0..<480]
        # map (\<lambda>j. map (rnn ((F @ [take 480 xs])
                                        @ map (\<lambda>i. take 480 (drop (480 * i) (drop 480 xs))) [0..<j])
                                      (take 480 (drop (480 * j) (drop 480 xs)))) [0..<480]) [0..<m]"
    by (simp only: frames_shift) (simp add: add.commute)
  finally show ?thesis
    by (simp only: concat.simps)
qed

lemma denoise_loop_content:
  assumes "denoise_active (fst st)" and "denoise_wf (fst st)" and "snd st \<le> length buf"
    and "denoise_state (fst st) = Some F"
    and "stream = take (denoise_buffer_pos (fst st)) (denoise_input_buffer (fst st))
                  @ map (\<lambda>x. real_of_int (sint x)) (drop (snd st) buf)"
  shows "denoise_state (denoise_loop rnn buf st)
      = Some (F @ map (\<lambda>j. take 480 (drop (480 * j) stream)) [0..<length stream div 480]) \<and>
    take (denoise_buffer_pos (denoise_loop rnn buf st)) (denoise_input_buffer (denoise_loop rnn buf st))
      = drop (480 * (length stream div 480)) stream \<and>
    output_queue (denoise_loop rnn buf st)
      = output_queue (fst st)
        @ concat (map (\<lambda>j. map (rnn (F @ map (\<lambda>i. take 480 (drop (480 * i) stream)) [0..<j])
                                     (take 480 (drop (480 * j) stream))) [0..<480])
                   [0..<min (length stream div 480)
                            ((denoise_buffer_size (fst st) - denoise_output_pos (fst st)) div 480)])"
  using assms
proof (induction rnn buf st arbitrary: F stream rule: denoise_loop.induct)
  case (1 rnn buf st)
  obtain s r where st: "st = (s, r)"
    by (cases st)
  have act: "denoise_active s" and wf: "denoise_wf s" and r_le: "r \<le> length buf"
    and F: "denoise_state s = Some F"
    and stream: "stream = take (denoise_buffer_pos s) (denoise_input_buffer s)
                  @ map (\<lambda>x. real_of_int (sint x)) (drop r buf)"
    using "1.prems" by (simp_all add: st)
  have p_lt: "denoise_buffer_pos s < 480" and o_le: "denoise_output_pos s \<le> denoise_buffer_size s"
    and len_in: "length (denoise_input_buffer s) = denoise_buffer_size s"
    and size: "480 \<le> denoise_buffer_size s"
    using wf by (simp_all add: denoise_wf_def RNNOISE_FRAME_SIZE_def)
  have lp: "length (take (denoise_buffer_pos s) (denoise_input_buffer s)) = denoise_buffer_pos s"
    using p_lt len_in size by simp
  have ls: "length stream = denoise_buffer_pos s + (length buf - r)"
    using lp by (simp add: stream)
  show ?case
  proof (cases "r < length buf")
    case False
    then have "denoise_loop rnn buf st = s"
      by (simp add: denoise_loop_done st)
    moreover from False r_le have "length buf - r = 0"
      by simp
    ultimately show ?thesis
      using p_lt F ls by (simp add: st stream)
  next
    case True
    define c where "c = min (RNNOISE_FRAME_SIZE - denoise_buffer_pos s) (length buf - r)"
    define s' where "s' = fst (denoise_loop_body rnn buf (s, r))"
    define acc where "acc = take (denoise_buffer_pos s) (denoise_input_buffer s)
                   @ map (\<lambda>x. real_of_int (sint x)) (take c (drop r buf))"
    define A where "A = take (denoise_buffer_pos s) (denoise_input_buffer s)"
    have lA: "length A = denoise_buffer_pos s"
      using lp by (simp add: A_def)
    have streamA: "stream = A @ map (\<lambda>x. real_of_int (sint x)) (drop r buf)"
      by (simp add: stream A_def)
    have accA: "acc = A @ map (\<lambda>x. real_of_int (sint x)) (take c (drop r buf))"
      by (simp add: acc_def A_def)
    note b = loop_body_effect [OF act wf True, of rnn, folded c_def s'_def]
    note bc = loop_body_content [OF act wf True F, of rnn, folded c_def s'_def acc_def]
    have c480: "c = min (480 - denoise_buffer_pos s) (length buf - r)"
      by (simp add: c_def RNNOISE_FRAME_SIZE_def)
    have body: "denoise_loop_body rnn buf st = (s', r + c)"
      using b(1) by (simp add: st s'_def prod_eq_iff)
    define L where "L = denoise_loop rnn buf (s', r + c)"
    have body': "denoise_loop_body rnn buf (s, r) = (s', r + c)"
      using body by (simp only: st)
    have "denoise_loop rnn buf (s, r) = denoise_loop rnn buf (denoise_loop_body rnn buf (s, r))"
      using True p_lt by (intro denoise_loop_continue) (simp_all add: RNNOISE_FRAME_SIZE_def)
    then have res: "denoise_loop rnn buf (s, r) = L"
      by (simp only: body' L_def)
    have rc: "r + c \<le> length buf"
      using True by (simp add: c_def)
    have guard: "snd st < length buf \<and> denoise_buffer_pos (fst st) \<le> RNNOISE_FRAME_SIZE"
      using True p_lt by (simp add: st RNNOISE_FRAME_SIZE_def)
    have pre: "denoise_active (fst (denoise_loop_body rnn buf st))"
      "denoise_wf (fst (denoise_loop_body rnn buf st))"
      "snd (denoise_loop_body rnn buf st) \<le> length buf"
      using b(2,3) rc by (simp_all add: body)
    have IH: "denoise_state L
        = Some (F' @ map (\<lambda>j. take 480 (drop (480 * j) stream')) [0..<length stream' div 480]) \<and>
      take (denoise_buffer_pos L) (denoise_input_buffer L)
        = drop (480 * (length stream' div 480)) stream' \<and>
      output_queue L
        = output_queue s'
          @ concat (map (\<lambda>j. map (rnn (F' @ map (\<lambda>i. take 480 (drop (480 * i) stream')) [0..<j])
                                       (take 480 (drop (480 * j) stream'))) [0..<480])
                     [0..<min (length stream' div 480)
                              ((denoise_buffer_size s' - denoise_output_pos s') div 480)])"
      if "denoise_state s' = Some F'"
        and "stream' = take (denoise_buffer_pos s') (denoise_input_buffer s')
                  @ map (\<lambda>x. real_of_int (sint x)) (drop (r + c) buf)"
      for F' stream'
    proof -
      have a: "denoise_state (fst (denoise_loop_body rnn buf st)) = Some F'"
        using that(1) by (simp add: body)
      have b: "stream' = take (denoise_buffer_pos (fst (denoise_loop_body rnn buf st)))
                    (denoise_input_buffer (fst (denoise_loop_body rnn buf st)))
                  @ map (\<lambda>x. real_of_int (sint x)) (drop (snd (denoise_loop_body rnn buf st)) buf)"
        using that(2) by (simp add: body)
      show ?thesis
        using "1.IH" [OF guard pre a b]
        unfolding body fst_conv snd_conv L_def [symmetric] .
    qed
    show ?thesis
    proof (cases "denoise_buffer_pos s + c = RNNOISE_FRAME_SIZE")
      case full: True
      then have c_eq: "c = 480 - denoise_buffer_pos s" and c_le: "c \<le> length buf - r"
        using p_lt by (simp_all add: c480 RNNOISE_FRAME_SIZE_def min_def split: if_splits)
      from b(5) [OF full] have pos0: "denoise_buffer_pos s' = 0"
        by simp
      have F': "denoise_state s' = Some (F @ [acc])"
        using bc(1) [OF full] by (simp add: acc_def)
      have tk: "take 480 stream = acc"
        using lA c_le p_lt by (simp add: streamA accA c_eq take_map)
      have dr: "drop 480 stream = map (\<lambda>x. real_of_int (sint x)) (drop (r + c) buf)"
        using lA c_le p_lt by (simp add: streamA c_eq drop_map add.commute)
      have stream': "drop 480 stream = take (denoise_buffer_pos s') (denoise_input_buffer s')
                  @ map (\<lambda>x. real_of_int (sint x)) (drop (r + c) buf)"
        by (simp add: pos0 dr)
      have ls': "length stream = 480 + length (drop 480 stream)"
        using ls c_le p_lt by (simp add: dr c_eq)
      have n: "length stream div 480 = Suc (length (drop 480 stream) div 480)"
        by (subst ls') simp
      note ih = IH [OF F' stream']
      have A: "denoise_state L
          = Some (F @ map (\<lambda>j. take 480 (drop (480 * j) stream)) [0..<length stream div 480])"
        using ih by (simp only: n frames_shift tk) simp
      have B: "take (denoise_buffer_pos L) (denoise_input_buffer L)
          = drop (480 * (length stream div 480)) stream"
        using ih by (simp only: n) (simp add: add.commute)
      show ?thesis
      proof (cases "denoise_output_pos s + RNNOISE_FRAME_SIZE \<le> denoise_buffer_size s")
        case fits: True
        from b(7) [OF full fits] have o': "denoise_output_pos s' = denoise_output_pos s + 480"
          by (simp_all add: RNNOISE_FRAME_SIZE_def)
        have q': "output_queue s' = output_queue s @ map (rnn F acc) [0..<480]"
          using bc(2) [OF full fits] by (simp add: acc_def)
        have fit_div: "(denoise_buffer_size s - denoise_output_pos s) div 480
            = Suc ((denoise_buffer_size s - (denoise_output_pos s + 480)) div 480)"
          using fits by (intro room_step) (simp add: RNNOISE_FRAME_SIZE_def)
        have C: "output_queue L
          = output_queue s
            @ concat (map (\<lambda>j. map (rnn (F @ map (\<lambda>i. take 480 (drop (480 * i) stream)) [0..<j])
                                     (take 480 (drop (480 * j) stream))) [0..<480])
                   [0..<min (length stream div 480)
                            ((denoise_buffer_size s - denoise_output_pos s) div 480)])"
          using ih
          by (simp only: n fit_div min_Suc_Suc clean_shift tk q' o' b(4) append_assoc)
        show ?thesis
          using A B C unfolding st fst_conv res by blast
      next
        case nofit: False
        from b(8) [OF full nofit] have o': "denoise_output_pos s' = denoise_output_pos s"
          and keep: "denoise_output_buffer s' = denoise_output_buffer s"
          by simp_all
        have q': "output_queue s' = output_queue s"
          by (simp add: output_queue_def o' keep)
        have fit0: "(denoise_buffer_size s - denoise_output_pos s) div 480 = 0"
          using nofit by (simp add: RNNOISE_FRAME_SIZE_def)
        have C: "output_queue L = output_queue s"
          using ih by (simp add: o' b(4) fit0 q')
        show ?thesis
          using A B C by (simp only: st res fst_conv fit0) simp
      qed
    next
      case part: False
      then have part480: "denoise_buffer_pos s + min (480 - denoise_buffer_pos s) (length buf - r) \<noteq> 480"
        by (simp add: c480 RNNOISE_FRAME_SIZE_def)
      note fp = frames_step_partial [OF part480 True p_lt, folded c480]
      from b(6) [OF part] have same:
        "denoise_buffer_pos s' = denoise_buffer_pos s + c"
        "denoise_output_pos s' = denoise_output_pos s"
        "denoise_output_buffer s' = denoise_output_buffer s"
        by simp_all
      have q': "output_queue s' = output_queue s"
        by (simp add: output_queue_def same)
      from bc(3) [OF part] have F': "denoise_state s' = Some F"
        and tk: "take (denoise_buffer_pos s + c) (denoise_input_buffer s') = acc"
        by (simp_all add: acc_def)
      have "acc = stream"
        using fp(1) by (simp add: accA streamA)
      then have stream': "stream = take (denoise_buffer_pos s') (denoise_input_buffer s')
                  @ map (\<lambda>x. real_of_int (sint x)) (drop (r + c) buf)"
        using tk fp(1) True by (simp add: same)
      note ih = IH [OF F' stream']
      show ?thesis
        using ih by (simp only: st res fst_conv q' same b(4))
    qed
  qed
qed

subsection \<open>Draining the output queue, and a whole buffer\<close>

lemma denoise_drain_effect:
  assumes "denoise_output_pos s \<le> denoise_buffer_size s"
    and "length (denoise_output_buffer s) = denoise_buffer_size s"
  shows "snd (denoise_drain s buf)
      = gst_vosk_convert_float_to_s16 (take (length buf) (output_queue s))
        @ replicate (length buf - length (output_queue s)) 0"
    and "output_queue (fst (denoise_drain s buf)) = drop (length buf) (output_queue s)"
    and "denoise_output_pos (fst (denoise_drain s buf)) = denoise_output_pos s - length buf"
    and "length (denoise_output_buffer (fst (denoise_drain s buf))) = denoise_buffer_size s"
proof -
  define n where "n = length buf"
  define m where "m = min (denoise_output_pos s) n"
  define out where "out = denoise_output_buffer s"
  have len: "length out = denoise_buffer_size s" and o_le: "denoise_output_pos s \<le> length out"
    using assms by (simp_all add: out_def)
  have q: "output_queue s = take (denoise_output_pos s) out"
    by (simp add: output_queue_def out_def)
  have lq: "length (output_queue s) = denoise_output_pos s"
    using o_le by (simp add: q)
  have tk: "take n (output_queue s) = take m out"
    by (simp add: q m_def min.commute)
  have conv_len: "length (gst_vosk_convert_float_to_s16 (take m out)) = m"
    using o_le by (simp add: gst_vosk_convert_float_to_s16_def m_def)
  have m_le: "m \<le> n"
    by (simp add: m_def)
  have n0: "buf = []" if "n = 0"
    using that by (simp add: n_def)
  have nm: "n - m = n - denoise_output_pos s"
    by (simp add: m_def)
  show "snd (denoise_drain s buf)
      = gst_vosk_convert_float_to_s16 (take (length buf) (output_queue s))
        @ replicate (length buf - length (output_queue s)) 0"
  proof (cases "m = 0")
    case True
    then show ?thesis
      using m_le n0
      by (auto simp: denoise_drain_def Let_def array_write_def n_def [symmetric] m_def [symmetric]
          out_def [symmetric] tk lq nm [symmetric] gst_vosk_convert_float_to_s16_def)
  next
    case False
    then show ?thesis
      using m_le conv_len
      by (auto simp: denoise_drain_def Let_def array_write_def n_def [symmetric] m_def [symmetric]
          out_def [symmetric] tk lq nm [symmetric])
  qed
  show pos: "denoise_output_pos (fst (denoise_drain s buf)) = denoise_output_pos s - length buf"
    by (auto simp: denoise_drain_def Let_def min_def)
  show "output_queue (fst (denoise_drain s buf)) = drop (length buf) (output_queue s)"
  proof (cases "m = 0")
    case True
    then have "n = 0 \<or> denoise_output_pos s = 0"
      by (auto simp: m_def min_def split: if_splits)
    then show ?thesis
      using True
      by (auto simp: denoise_drain_def Let_def n_def [symmetric] m_def [symmetric] output_queue_def)
  next
    case False
    show ?thesis
    proof (cases "denoise_output_pos s - m = 0")
      case True
      then have "denoise_output_pos s \<le> n"
        by (simp add: m_def min_def split: if_splits)
      then show ?thesis
        using False True
        by (simp add: denoise_drain_def Let_def n_def [symmetric] m_def [symmetric]
            output_queue_def)
    next
      case rest: False
      then have mn: "m = n" and n_lt: "n < denoise_output_pos s"
        by (simp_all add: m_def min_def split: if_splits)
      have "length (take (denoise_output_pos s - n) (drop n out)) = denoise_output_pos s - n"
        using o_le by simp
      then have "take (denoise_output_pos s - n)
          (array_write out 0 (take (denoise_output_pos s - n) (drop n out)))
        = take (denoise_output_pos s - n) (drop n out)"
        by (simp add: array_write_def)
      then show ?thesis
        using False rest mn n_lt
        by (simp add: denoise_drain_def Let_def n_def [symmetric] m_def [symmetric]
            out_def [symmetric] output_queue_def drop_take)
    qed
  qed
  show "length (denoise_output_buffer (fst (denoise_drain s buf))) = denoise_buffer_size s"
    using len o_le
    by (auto simp: denoise_drain_def Let_def array_write_def out_def [symmetric] min_def)
qed


lemma apply_denoise_active_eq:
  assumes "denoise_active s"
  shows "gst_vosk_apply_denoise rnn s buf = denoise_drain (denoise_loop rnn buf (s, 0)) buf"
  using assms by (simp add: gst_vosk_apply_denoise_def denoise_active_def)

lemma denoise_drain_keeps:
  "denoise_active (fst (denoise_drain s buf)) = denoise_active s"
  "rnnoise_calls (fst (denoise_drain s buf)) = rnnoise_calls s"
  "denoise_buffer_pos (fst (denoise_drain s buf)) = denoise_buffer_pos s"
  "denoise_buffer_size (fst (denoise_drain s buf)) = denoise_buffer_size s"
  "denoise_input_buffer (fst (denoise_drain s buf)) = denoise_input_buffer s"
  by (simp_all add: denoise_drain_def Let_def denoise_active_def rnnoise_calls_def)

lemma apply_denoise_effect:
  assumes "denoise_active s" and "denoise_wf s"
  shows "denoise_active (fst (gst_vosk_apply_denoise rnn s buf))"
    and "denoise_wf (fst (gst_vosk_apply_denoise rnn s buf))"
    and "denoise_buffer_size (fst (gst_vosk_apply_denoise rnn s buf)) = denoise_buffer_size s"
    and "rnnoise_calls (fst (gst_vosk_apply_denoise rnn s buf))
      = rnnoise_calls s + (denoise_buffer_pos s + length buf) div RNNOISE_FRAME_SIZE"
    and "denoise_buffer_pos (fst (gst_vosk_apply_denoise rnn s buf))
      = (denoise_buffer_pos s + length buf) mod RNNOISE_FRAME_SIZE"
proof -
  define s1 where "s1 = denoise_loop rnn buf (s, 0)"
  have l: "denoise_active s1 \<and> denoise_wf s1 \<and>
    denoise_buffer_size s1 = denoise_buffer_size s \<and>
    rnnoise_calls s1 = rnnoise_calls s + (denoise_buffer_pos s + length buf) div RNNOISE_FRAME_SIZE \<and>
    denoise_buffer_pos s1 = (denoise_buffer_pos s + length buf) mod RNNOISE_FRAME_SIZE"
    using denoise_loop_effect [of "(s, 0)" buf rnn] assms by (simp add: s1_def)
  have eq: "gst_vosk_apply_denoise rnn s buf = denoise_drain s1 buf"
    using assms(1) by (simp add: apply_denoise_active_eq s1_def)
  have shape: "denoise_output_pos s1 \<le> denoise_buffer_size s1"
    "length (denoise_output_buffer s1) = denoise_buffer_size s1"
    using l by (simp_all add: denoise_wf_def)
  note d = denoise_drain_effect [OF shape, of buf]
  show "denoise_active (fst (gst_vosk_apply_denoise rnn s buf))"
    using l by (simp add: eq denoise_drain_keeps)
  show "denoise_wf (fst (gst_vosk_apply_denoise rnn s buf))"
    using l d(3,4) by (auto simp: eq denoise_wf_def denoise_drain_keeps)
  show "denoise_buffer_size (fst (gst_vosk_apply_denoise rnn s buf)) = denoise_buffer_size s"
    using l by (simp add: eq denoise_drain_keeps)
  show "rnnoise_calls (fst (gst_vosk_apply_denoise rnn s buf))
      = rnnoise_calls s + (denoise_buffer_pos s + length buf) div RNNOISE_FRAME_SIZE"
    using l by (simp add: eq denoise_drain_keeps)
  show "denoise_buffer_pos (fst (gst_vosk_apply_denoise rnn s buf))
      = (denoise_buffer_pos s + length buf) mod RNNOISE_FRAME_SIZE"
    using l by (simp add: eq denoise_drain_keeps)
qed

lemma frames_add:
  fixes p n r :: nat
  shows "(p + n) div 480 + ((p + n) mod 480 + r) div 480 = (p + (n + r)) div 480"
    and "((p + n) mod 480 + r) mod 480 = (p + (n + r)) mod 480"
proof -
  define q where "q = (p + n) div 480"
  define m where "m = (p + n) mod 480"
  have e: "p + (n + r) = q * 480 + (m + r)"
    by (simp add: q_def m_def)
  have "(q * 480 + (m + r)) div 480 = q + (m + r) div 480"
    by simp
  then show "(p + n) div 480 + ((p + n) mod 480 + r) div 480 = (p + (n + r)) div 480"
    by (simp only: e q_def [symmetric] m_def [symmetric])
  have "(q * 480 + (m + r)) mod 480 = (m + r) mod 480"
    by simp
  then show "((p + n) mod 480 + r) mod 480 = (p + (n + r)) mod 480"
    by (simp only: e m_def [symmetric])
qed

lemma denoise_buffers_effect:
  assumes "denoise_active s" and "denoise_wf s"
  shows "denoise_active (fst (denoise_buffers rnn s bufs)) \<and>
    denoise_wf (fst (denoise_buffers rnn s bufs)) \<and>
    rnnoise_calls (fst (denoise_buffers rnn s bufs))
      = rnnoise_calls s + (denoise_buffer_pos s + sum_list (map length bufs)) div RNNOISE_FRAME_SIZE \<and>
    denoise_buffer_pos (fst (denoise_buffers rnn s bufs))
      = (denoise_buffer_pos s + sum_list (map length bufs)) mod RNNOISE_FRAME_SIZE \<and>
    map length (snd (denoise_buffers rnn s bufs)) = map length bufs"
  using assms
proof (induction bufs arbitrary: s)
  case Nil
  then show ?case
    by (simp add: denoise_wf_def)
next
  case (Cons b bufs)
  define s1 where "s1 = fst (gst_vosk_apply_denoise rnn s b)"
  note a = apply_denoise_effect [OF Cons.prems, of rnn b, folded s1_def]
  note IH = Cons.IH [OF a(1,2)]
  have len: "length (snd (gst_vosk_apply_denoise rnn s b)) = length b"
  proof -
    define s0 where "s0 = denoise_loop rnn b (s, 0)"
    have l: "denoise_wf s0"
      using denoise_loop_effect [of "(s, 0)" b rnn] Cons.prems by (simp add: s0_def)
    then have shape: "denoise_output_pos s0 \<le> denoise_buffer_size s0"
      "length (denoise_output_buffer s0) = denoise_buffer_size s0"
      by (simp_all add: denoise_wf_def)
    have "snd (gst_vosk_apply_denoise rnn s b) = snd (denoise_drain s0 b)"
      using Cons.prems(1) by (simp add: apply_denoise_active_eq s0_def)
    then show ?thesis
      using shape
      by (simp add: denoise_drain_effect(1) [OF shape] gst_vosk_convert_float_to_s16_def
          output_queue_def)
  qed
  show ?case
    using IH len
    by (simp add: Let_def s1_def [symmetric] a(4,5) RNNOISE_FRAME_SIZE_def frames_add)
qed


lemma activated_48000:
  "denoise_active (vosk_activated 48000)"
  "denoise_wf (vosk_activated 48000)"
  "denoise_buffer_pos (vosk_activated 48000) = 0"
  "denoise_output_pos (vosk_activated 48000) = 0"
  "denoise_buffer_size (vosk_activated 48000) = 960"
  "rnnoise_calls (vosk_activated 48000) = 0"
  by (simp_all add: vosk_activated_def gst_vosk_load_model_async_def gst_vosk_check_model_path_def
     gst_vosk_init_def load_model_clean_def gst_vosk_recognizer_new_def gst_vosk_get_rate_def
     gfloat_of_gint_def
     gst_vosk_init_denoise_def Let_def denoise_active_def denoise_wf_def rnnoise_calls_def
     RNNOISE_FRAME_SIZE_def)

subsection \<open>The frames seen and the samples written\<close>

lemma float_to_s16_sample:
  "gint16_of_float (CLAMP x (- 32768) 32767)
     = word_of_int (if 32767 < x then 32767 else if x < - 32768 then - 32768
                    else if 0 \<le> x then \<lfloor>x\<rfloor> else \<lceil>x\<rceil>)"
  by (simp add: CLAMP_def gint16_of_float_def)

lemma denoise_drain_state:
  "denoise_state (fst (denoise_drain s buf)) = denoise_state s"
  by (simp add: denoise_drain_def Let_def)

lemma activated_48000_fresh:
  "denoise_state (vosk_activated 48000) = Some []"
  "output_queue (vosk_activated 48000) = []"
  "take 0 (denoise_input_buffer (vosk_activated 48000)) = []"
  by (simp_all add: vosk_activated_def gst_vosk_load_model_async_def gst_vosk_check_model_path_def
     gst_vosk_init_def load_model_clean_def gst_vosk_recognizer_new_def gst_vosk_get_rate_def
     gfloat_of_gint_def output_queue_def
     gst_vosk_init_denoise_def Let_def RNNOISE_FRAME_SIZE_def)

lemma map_nth_fun:
  "map (\<lambda>i. g (xs ! i)) [0..<length xs] = map g xs"
  by (rule nth_equalityI) simp_all

lemma frames_append:
  fixes xs ys :: "'a list"
  shows "map (\<lambda>j. take 480 (drop (480 * j) (xs @ ys))) [0..<length (xs @ ys) div 480]
       = map (\<lambda>j. take 480 (drop (480 * j) xs)) [0..<length xs div 480]
         @ map (\<lambda>j. take 480 (drop (480 * j) (drop (480 * (length xs div 480)) xs @ ys)))
             [0..<length (drop (480 * (length xs div 480)) xs @ ys) div 480]"
    and "drop (480 * (length (xs @ ys) div 480)) (xs @ ys)
       = drop (480 * (length (drop (480 * (length xs div 480)) xs @ ys) div 480))
           (drop (480 * (length xs div 480)) xs @ ys)"
proof -
  define n1 where "n1 = length xs div 480"
  define m where "m = length xs mod 480"
  have lx: "length xs = 480 * n1 + m"
    by (simp add: n1_def m_def)
  have le: "480 * n1 \<le> length xs"
    by (simp add: lx)
  define zs where "zs = drop (480 * n1) xs @ ys"
  have lz: "length zs = m + length ys"
    by (simp add: zs_def lx)
  define n2 where "n2 = length zs div 480"
  have "length (xs @ ys) = n1 * 480 + length zs"
    by (simp add: lx lz)
  then have "length (xs @ ys) div 480 = n1 + length zs div 480"
    by (simp only: div_mult_self3)
  then have n: "length (xs @ ys) div 480 = n1 + n2"
    by (simp only: n2_def)
  have dz: "drop (480 * n1) (xs @ ys) = zs"
    using le by (simp add: zs_def)
  have second: "drop (480 * (n1 + j)) (xs @ ys) = drop (480 * j) zs" for j
  proof -
    have "drop (480 * j) zs = drop (480 * j) (drop (480 * n1) (xs @ ys))"
      by (simp only: dz)
    also have "\<dots> = drop (480 * j + 480 * n1) (xs @ ys)"
      by (simp only: drop_drop)
    also have "480 * j + 480 * n1 = 480 * (n1 + j)"
      by simp
    finally show ?thesis
      by simp
  qed
  have first: "take 480 (drop (480 * j) (xs @ ys)) = take 480 (drop (480 * j) xs)" if "j < n1" for j
  proof -
    from that have "Suc j \<le> n1"
      by simp
    then have "480 * Suc j \<le> 480 * n1"
      by (simp only: mult_le_mono2)
    with le have "480 * j + 480 \<le> length xs"
      by simp
    then show ?thesis
      by simp
  qed
  have split: "[0..<n1 + n2] = [0..<n1] @ map (\<lambda>j. n1 + j) [0..<n2]"
    by (induction n2) simp_all
  have "map (\<lambda>j. take 480 (drop (480 * j) (xs @ ys))) [0..<n1 + n2]
      = map (\<lambda>j. take 480 (drop (480 * j) (xs @ ys))) [0..<n1]
        @ map (\<lambda>j. take 480 (drop (480 * (n1 + j)) (xs @ ys))) [0..<n2]"
    by (simp only: split map_append map_map comp_def)
  also have "map (\<lambda>j. take 480 (drop (480 * j) (xs @ ys))) [0..<n1]
      = map (\<lambda>j. take 480 (drop (480 * j) xs)) [0..<n1]"
    by (rule map_cong) (simp_all only: first atLeastLessThan_iff set_upt)
  also have "map (\<lambda>j. take 480 (drop (480 * (n1 + j)) (xs @ ys))) [0..<n2]
      = map (\<lambda>j. take 480 (drop (480 * j) zs)) [0..<n2]"
    by (simp only: second)
  finally show "map (\<lambda>j. take 480 (drop (480 * j) (xs @ ys))) [0..<length (xs @ ys) div 480]
       = map (\<lambda>j. take 480 (drop (480 * j) xs)) [0..<length xs div 480]
         @ map (\<lambda>j. take 480 (drop (480 * j) (drop (480 * (length xs div 480)) xs @ ys)))
             [0..<length (drop (480 * (length xs div 480)) xs @ ys) div 480]"
    by (simp only: n n1_def [symmetric] zs_def [symmetric] n2_def [symmetric])
  show "drop (480 * (length (xs @ ys) div 480)) (xs @ ys)
       = drop (480 * (length (drop (480 * (length xs div 480)) xs @ ys) div 480))
           (drop (480 * (length xs div 480)) xs @ ys)"
    by (simp only: n n1_def [symmetric] zs_def [symmetric] n2_def [symmetric] second)
qed

lemma apply_denoise_content:
  assumes "denoise_active s" and "denoise_wf s" and "denoise_state s = Some F"
    and "stream = take (denoise_buffer_pos s) (denoise_input_buffer s)
                  @ map (\<lambda>x. real_of_int (sint x)) buf"
  shows "denoise_state (fst (gst_vosk_apply_denoise rnn s buf))
      = Some (F @ map (\<lambda>j. take 480 (drop (480 * j) stream)) [0..<length stream div 480])"
    and "take (denoise_buffer_pos (fst (gst_vosk_apply_denoise rnn s buf)))
           (denoise_input_buffer (fst (gst_vosk_apply_denoise rnn s buf)))
      = drop (480 * (length stream div 480)) stream"
    and "output_queue (denoise_loop rnn buf (s, 0))
      = output_queue s
        @ concat (map (\<lambda>j. map (rnn (F @ map (\<lambda>i. take 480 (drop (480 * i) stream)) [0..<j])
                                     (take 480 (drop (480 * j) stream))) [0..<480])
                   [0..<min (length stream div 480)
                            ((denoise_buffer_size s - denoise_output_pos s) div 480)])"
proof -
  define s1 where "s1 = denoise_loop rnn buf (s, 0)"
  have eq: "gst_vosk_apply_denoise rnn s buf = denoise_drain s1 buf"
    using assms(1) by (simp add: apply_denoise_active_eq s1_def)
  have content: "denoise_state s1
      = Some (F @ map (\<lambda>j. take 480 (drop (480 * j) stream)) [0..<length stream div 480]) \<and>
    take (denoise_buffer_pos s1) (denoise_input_buffer s1)
      = drop (480 * (length stream div 480)) stream \<and>
    output_queue s1
      = output_queue s
        @ concat (map (\<lambda>j. map (rnn (F @ map (\<lambda>i. take 480 (drop (480 * i) stream)) [0..<j])
                                     (take 480 (drop (480 * j) stream))) [0..<480])
                   [0..<min (length stream div 480)
                            ((denoise_buffer_size s - denoise_output_pos s) div 480)])"
    using denoise_loop_content [of "(s, 0)" buf F stream rnn] assms
    by (simp add: s1_def)
  show "denoise_state (fst (gst_vosk_apply_denoise rnn s buf))
      = Some (F @ map (\<lambda>j. take 480 (drop (480 * j) stream)) [0..<length stream div 480])"
    using content by (simp only: eq denoise_drain_state)
  show "take (denoise_buffer_pos (fst (gst_vosk_apply_denoise rnn s buf)))
           (denoise_input_buffer (fst (gst_vosk_apply_denoise rnn s buf)))
      = drop (480 * (length stream div 480)) stream"
    using content by (simp only: eq denoise_drain_keeps)
  show "output_queue (denoise_loop rnn buf (s, 0))
      = output_queue s
        @ concat (map (\<lambda>j. map (rnn (F @ map (\<lambda>i. take 480 (drop (480 * i) stream)) [0..<j])
                                     (take 480 (drop (480 * j) stream))) [0..<480])
                   [0..<min (length stream div 480)
                            ((denoise_buffer_size s - denoise_output_pos s) div 480)])"
    using content by (simp only: s1_def)
qed

lemma denoise_buffers_frames:
  assumes "denoise_active s" and "denoise_wf s" and "denoise_state s = Some F"
    and "streams = take (denoise_buffer_pos s) (denoise_input_buffer s)
                   @ map (\<lambda>x. real_of_int (sint x)) (concat bufs)"
  shows "denoise_state (fst (denoise_buffers rnn s bufs))
      = Some (F @ map (\<lambda>j. take 480 (drop (480 * j) streams)) [0..<length streams div 480]) \<and>
    take (denoise_buffer_pos (fst (denoise_buffers rnn s bufs)))
         (denoise_input_buffer (fst (denoise_buffers rnn s bufs)))
      = drop (480 * (length streams div 480)) streams"
  using assms
proof (induction bufs arbitrary: s F streams)
  case Nil
  have "denoise_buffer_pos s < 480" "length (denoise_input_buffer s) = denoise_buffer_size s"
    "480 \<le> denoise_buffer_size s"
    using Nil.prems(2) by (simp_all add: denoise_wf_def RNNOISE_FRAME_SIZE_def)
  then have "length streams = denoise_buffer_pos s" "length streams div 480 = 0"
    by (simp_all add: Nil.prems(4))
  then show ?case
    using Nil.prems(3) by (simp add: Nil.prems(4))
next
  case (Cons b bufs)
  define s1 where "s1 = fst (gst_vosk_apply_denoise rnn s b)"
  define xs where "xs = take (denoise_buffer_pos s) (denoise_input_buffer s)
                  @ map (\<lambda>x. real_of_int (sint x)) b"
  define ys where "ys = map (\<lambda>x. real_of_int (sint x)) (concat bufs)"
  have streams: "streams = xs @ ys"
    by (simp add: Cons.prems(4) xs_def ys_def)
  note a = apply_denoise_effect [OF Cons.prems(1,2), of rnn b, folded s1_def]
  note c = apply_denoise_content [OF Cons.prems(1,2,3) xs_def, of rnn, folded s1_def]
  have next_stream: "drop (480 * (length xs div 480)) xs @ ys
      = take (denoise_buffer_pos s1) (denoise_input_buffer s1)
        @ map (\<lambda>x. real_of_int (sint x)) (concat bufs)"
    by (simp only: c(2) ys_def)
  note IH = Cons.IH [OF a(1,2) c(1) next_stream]
  have step: "fst (denoise_buffers rnn s (b # bufs)) = fst (denoise_buffers rnn s1 bufs)"
    by (simp add: Let_def s1_def)
  show ?case
    using IH unfolding step streams frames_append [of xs ys] by simp
qed

section \<open>The partial-results-interval property read back\<close>

lemma sint_times_GST_MSECOND:
  fixes v :: gint64
  assumes "- 9223372036854 \<le> sint v" and "sint v \<le> 9223372036854"
  shows "sint (v * GST_MSECOND) = sint v * 1000000"
proof -
  have "sint (v * GST_MSECOND) = signed_take_bit 63 (sint v * 1000000)"
    by (simp add: sint_word_mult GST_MSECOND_def)
  also have "\<dots> = sint v * 1000000"
    using assms by (intro signed_take_bit_int_eq_self) auto
  finally show ?thesis .
qed

text \<open>
  As long as the product fits into 64 bits, the getter returns what the setter was given.
\<close>

lemma partial_results_interval_small_read_back:
  fixes v :: gint64
  assumes "- 1 \<le> sint v" and "sint v \<le> 9223372036854"
  shows "get_partial_results_interval (set_partial_results_interval v s) = v"
proof -
  have "- 9223372036854 \<le> sint v"
    using assms(1) by linarith
  then have "sint (v * GST_MSECOND) = sint v * 1000000"
    using assms(2) by (rule sint_times_GST_MSECOND)
  then have "sint (v * GST_MSECOND) sdiv sint GST_MSECOND = sint v"
    by (simp add: GST_MSECOND_def signed_divide_int_def sgn_mult abs_mult mult_sgn_abs)
  then show ?thesis
    by (simp add: get_partial_results_interval_def set_partial_results_interval_def
        gint64_div_def)
qed

text \<open>
  Whatever is stored, the getter never returns \<^verbatim>\<open>G_MAXINT64\<close>: a 64-bit value divided by
  a million is below \<open>2 ^ 44\<close> in absolute value.
\<close>

lemma partial_results_interval_never_G_MAXINT64:
  "get_partial_results_interval s \<noteq> G_MAXINT64"
proof -
  define x where "x = sint (partial_time_interval s)"
  have r: "- (2 ^ 63) \<le> x" "x < 2 ^ 63"
    unfolding x_def using sint_range_size[of "partial_time_interval s"]
    by (simp_all add: word_size)
  have "\<bar>x sdiv 1000000\<bar> \<le> \<bar>x\<bar> div 1000000"
    by (simp add: signed_divide_int_def abs_mult abs_sgn_eq)
  moreover have "\<bar>x\<bar> div 1000000 \<le> 9223372036854"
  proof -
    have "\<bar>x\<bar> \<le> 9223372036854775808"
      using r by simp
    then have "\<bar>x\<bar> div 1000000 \<le> 9223372036854775808 div 1000000"
      by (rule zdiv_mono1) simp
    then show ?thesis by simp
  qed
  ultimately have b: "\<bar>x sdiv 1000000\<bar> \<le> 9223372036854"
    by linarith
  have "sint (word_of_int (x sdiv 1000000) :: gint64) = x sdiv 1000000"
    using b by (simp add: sint_sbintrunc' signed_take_bit_int_eq_self)
  then have "sint (get_partial_results_interval s) \<noteq> sint G_MAXINT64"
    using b
    by (simp add: get_partial_results_interval_def gint64_div_def GST_MSECOND_def
        G_MAXINT64_def x_def)
  then show ?thesis by auto
qed

text \<open>
  C10. The property accepts every value from -1 to \<^verbatim>\<open>G_MAXINT64\<close> milliseconds (the
  range given to \<^verbatim>\<open>g_param_spec_int64\<close>), and the claim is that a value set is the value
  read. At the upper end of that range the setter's product with \<^verbatim>\<open>GST_MSECOND\<close> does not
  fit into a \<^verbatim>\<open>gint64\<close>: after setting \<^verbatim>\<open>G_MAXINT64\<close> the stored interval is
  -1000000 ns, and the getter returns -1, the value that disables partial results.
\<close>

theorem partial_results_interval_G_MAXINT64_reads_minus_one:
  "partial_time_interval (set_partial_results_interval G_MAXINT64 s) = - 1000000 \<and>
   get_partial_results_interval (set_partial_results_interval G_MAXINT64 s) = - 1 \<and>
   get_partial_results_interval (set_partial_results_interval G_MAXINT64 s) \<noteq> G_MAXINT64"
  by (simp add: get_partial_results_interval_def set_partial_results_interval_def
      G_MAXINT64_def GST_MSECOND_def gint64_div_def signed_divide_int_def)

section \<open>Catching up\<close>

text \<open>
  C1, as the code has it. Take a buffer that is mapped, not empty, and more than 500 ms
  behind the running time (catch-up mode). If less than 200 ms have passed since the last
  processed buffer's timestamp, the buffer is fed to the recognizer and nothing else
  happens: no query of any kind, nothing posted. From 200 ms on (200 ms included) the
  buffer is handled exactly as a buffer that is on time, and a final boundary is then
  queried.
\<close>

theorem catch_up_query_needs_200ms:
  assumes "buffer_map_ok buf" and "buffer_data buf \<noteq> []"
    and "500000000 < sint (GST_CLOCK_DIFF (GST_BUFFER_PTS buf) current_time)"
  shows
    "(sint (GST_CLOCK_DIFF (last_processed_time s) (GST_BUFFER_PTS buf)) < 200000000 \<longrightarrow>
        engine_calls (fst (gst_vosk_handle_buffer rnn current_time eng buf s))
          = engine_calls s @ [AcceptWaveform] \<and>
        outputs (fst (gst_vosk_handle_buffer rnn current_time eng buf s)) = outputs s) \<and>
     (200000000 \<le> sint (GST_CLOCK_DIFF (last_processed_time s) (GST_BUFFER_PTS buf)) \<longrightarrow>
        gst_vosk_handle_buffer rnn current_time eng buf s
          = gst_vosk_handle_buffer rnn (GST_BUFFER_PTS buf) eng buf s) \<and>
     (200000000 \<le> sint (GST_CLOCK_DIFF (last_processed_time s) (GST_BUFFER_PTS buf)) \<and>
      accept_waveform eng = 1 \<and> recognizer s \<noteq> None \<longrightarrow>
        engine_calls (fst (gst_vosk_handle_buffer rnn current_time eng buf s))
          = engine_calls s @ [AcceptWaveform, QueryResult])"
proof (intro conjI impI)
  assume less: "sint (GST_CLOCK_DIFF (last_processed_time s) (GST_BUFFER_PTS buf)) < 200000000"
  with assms(3) have "catch_up_skips current_time buf s"
    by (simp add: catch_up_skips_iff)
  then have eq: "fst (gst_vosk_handle_buffer rnn current_time eng buf s) =
      (fst (gst_vosk_apply_denoise rnn s (buffer_data buf)))
        \<lparr>engine_calls := engine_calls s @ [AcceptWaveform]\<rparr>"
    using assms(1,2) by (intro handle_buffer_skipped) simp_all
  show "engine_calls (fst (gst_vosk_handle_buffer rnn current_time eng buf s))
      = engine_calls s @ [AcceptWaveform]"
    by (simp add: eq)
  show "outputs (fst (gst_vosk_handle_buffer rnn current_time eng buf s)) = outputs s"
    by (simp add: eq)
next
  assume ge: "200000000 \<le> sint (GST_CLOCK_DIFF (last_processed_time s) (GST_BUFFER_PTS buf))"
  then have "\<not> catch_up_skips current_time buf s1"
    if "last_processed_time s1 = last_processed_time s" for s1 and current_time
    using that by (simp add: catch_up_skips_iff)
  then show "gst_vosk_handle_buffer rnn current_time eng buf s
      = gst_vosk_handle_buffer rnn (GST_BUFFER_PTS buf) eng buf s"
    by (simp add: gst_vosk_handle_buffer_def Let_def)
next
  assume a: "200000000 \<le> sint (GST_CLOCK_DIFF (last_processed_time s) (GST_BUFFER_PTS buf)) \<and>
      accept_waveform eng = 1 \<and> recognizer s \<noteq> None"
  then have "\<not> catch_up_skips current_time buf s"
    by (simp add: catch_up_skips_iff)
  with a assms(1,2) have "fst (gst_vosk_handle_buffer rnn current_time eng buf s) =
    handle_buffer_results eng buf
      ((fst (gst_vosk_apply_denoise rnn s (buffer_data buf)))
        \<lparr>engine_calls := engine_calls s @ [AcceptWaveform],
          last_processed_time := GST_BUFFER_PTS buf\<rparr>)"
    by (intro handle_buffer_processed) simp_all
  with a show "engine_calls (fst (gst_vosk_handle_buffer rnn current_time eng buf s))
      = engine_calls s @ [AcceptWaveform, QueryResult]"
    by (simp add: handle_buffer_results_def gst_vosk_result_msg_eq)
qed



text \<open>
  The claim puts the limit at "exceeds 200 ms". At exactly 200 ms the code does query: the
  streaming element gets a buffer stamped 200 ms at running time 1 s, the engine reports a
  boundary, and the result is queried and posted.
\<close>

theorem catch_up_query_at_200ms:
  "500000000 < sint (GST_CLOCK_DIFF (GST_BUFFER_PTS (buffer_at 200000000)) 1000000000) \<and>
   sint (GST_CLOCK_DIFF (last_processed_time vosk_streaming)
           (GST_BUFFER_PTS (buffer_at 200000000))) = 200000000 \<and>
   engine_calls (fst (gst_vosk_handle_buffer rnnoise_pass 1000000000 (engine_says 1 ''hello'')
       (buffer_at 200000000) vosk_streaming))
     = [AcceptWaveform, AcceptWaveform, QueryResult] \<and>
   outputs (fst (gst_vosk_handle_buffer rnnoise_pass 1000000000 (engine_says 1 ''hello'')
       (buffer_at 200000000) vosk_streaming))
     = [AsyncStart, AsyncDone, ContinueState, ResultMessage ''hello'']"
  by (simp add: run_buffer streaming_fields VOSK_EMPTY_TEXT_RESULT_def)


text \<open>
  The theorem at work: a buffer 100 ms after the last one is only fed; one 300 ms after it
  is handled as if it were on time.
\<close>

theorem catch_up_query_needs_200ms_witness:
  "engine_calls (fst (gst_vosk_handle_buffer rnnoise_pass 1000000000 (engine_says 1 ''hello'')
       (buffer_at 100000000) vosk_streaming))
     = [AcceptWaveform, AcceptWaveform] \<and>
   gst_vosk_handle_buffer rnnoise_pass 1000000000 (engine_says 1 ''hello'')
       (buffer_at 300000000) vosk_streaming
     = gst_vosk_handle_buffer rnnoise_pass 300000000 (engine_says 1 ''hello'')
       (buffer_at 300000000) vosk_streaming"
  using
    catch_up_query_needs_200ms [of "buffer_at 100000000" 1000000000
      vosk_streaming rnnoise_pass "engine_says 1 ''hello''"]
    catch_up_query_needs_200ms [of "buffer_at 300000000" 1000000000
      vosk_streaming rnnoise_pass "engine_says 1 ''hello''"]
  by (simp add: buffer_at_def GST_CLOCK_DIFF_def streaming_fields)

section \<open>A final boundary\<close>

text \<open>
  C2, as the code has it. When the engine reports a final boundary for a buffer
  (\<^verbatim>\<open>vosk_recognizer_accept_waveform\<close> returns 1) and the catch-up test does not skip the
  buffer, the result is queried exactly once and no partial query follows; it is posted
  unless it is \<^verbatim>\<open>NULL\<close> or the empty text result; the last-partial timestamp and the
  last-processed timestamp become the buffer's timestamp; and the query clears the cached
  partial.
\<close>

theorem final_boundary_result:
  assumes "buffer_map_ok buf" and "buffer_data buf \<noteq> []"
    and "accept_waveform eng = 1" and "recognizer s \<noteq> None"
    and "\<not> catch_up_skips current_time buf s"
  shows
    "engine_calls (fst (gst_vosk_handle_buffer rnn current_time eng buf s))
       = engine_calls s @ [AcceptWaveform, QueryResult] \<and>
     outputs (fst (gst_vosk_handle_buffer rnn current_time eng buf s))
       = outputs s @
         (case result_json eng of
            None \<Rightarrow> []
          | Some payload \<Rightarrow>
              if payload = VOSK_EMPTY_TEXT_RESULT then []
              else [if use_signals s then ResultSignal payload else ResultMessage payload]) \<and>
     last_partial (fst (gst_vosk_handle_buffer rnn current_time eng buf s)) = GST_BUFFER_PTS buf \<and>
     last_processed_time (fst (gst_vosk_handle_buffer rnn current_time eng buf s))
       = GST_BUFFER_PTS buf \<and>
     prev_partial (fst (gst_vosk_handle_buffer rnn current_time eng buf s)) = None"
proof -
  have "fst (gst_vosk_handle_buffer rnn current_time eng buf s) =
    handle_buffer_results eng buf
      ((fst (gst_vosk_apply_denoise rnn s (buffer_data buf)))
        \<lparr>engine_calls := engine_calls s @ [AcceptWaveform],
          last_processed_time := GST_BUFFER_PTS buf\<rparr>)"
    using assms by (intro handle_buffer_processed) simp_all
  with assms(3,4) show ?thesis
    by (simp add: handle_buffer_results_def gst_vosk_result_msg_eq split: option.splits)
qed

text \<open>
  The claim says "whenever" and "unconditionally". In catch-up mode, less than 200 ms after
  the last processed buffer, a reported boundary is not queried: the buffer is fed, nothing
  is posted and the last-partial timestamp stays where it was.
\<close>

theorem final_boundary_skipped_while_catching_up:
  "accept_waveform (engine_says 1 ''hello'') = 1 \<and>
   recognizer vosk_streaming \<noteq> None \<and>
   engine_calls (fst (gst_vosk_handle_buffer rnnoise_pass 1000000000 (engine_says 1 ''hello'')
       (buffer_at 100000000) vosk_streaming))
     = engine_calls vosk_streaming @ [AcceptWaveform] \<and>
   outputs (fst (gst_vosk_handle_buffer rnnoise_pass 1000000000 (engine_says 1 ''hello'')
       (buffer_at 100000000) vosk_streaming))
     = outputs vosk_streaming \<and>
   last_partial (fst (gst_vosk_handle_buffer rnnoise_pass 1000000000 (engine_says 1 ''hello'')
       (buffer_at 100000000) vosk_streaming))
     = 0"
  by (simp add: run_buffer streaming_fields)

text \<open>The theorem at work, on a buffer that is on time.\<close>

theorem final_boundary_result_witness:
  "engine_calls (fst (gst_vosk_handle_buffer rnnoise_pass 100000000 (engine_says 1 ''hello'')
       (buffer_at 100000000) vosk_streaming))
     = [AcceptWaveform, AcceptWaveform, QueryResult] \<and>
   outputs (fst (gst_vosk_handle_buffer rnnoise_pass 100000000 (engine_says 1 ''hello'')
       (buffer_at 100000000) vosk_streaming))
     = [AsyncStart, AsyncDone, ContinueState, ResultMessage ''hello''] \<and>
   last_partial (fst (gst_vosk_handle_buffer rnnoise_pass 100000000 (engine_says 1 ''hello'')
       (buffer_at 100000000) vosk_streaming))
     = 100000000"
  using final_boundary_result [of "buffer_at 100000000" "engine_says 1 ''hello''"
      vosk_streaming 100000000 rnnoise_pass]
  by (simp add: buffer_at_def engine_says_def streaming_fields catch_up_skips_iff
      GST_CLOCK_DIFF_def VOSK_EMPTY_TEXT_RESULT_def)

section \<open>Partial results\<close>

text \<open>
  C3, as the code has it. Take a buffer that is mapped and not empty, for which the engine
  reports neither an error nor a boundary (it returns 0) and which the catch-up test does not
  skip. With a non-negative interval, the partial result is queried exactly when the
  buffer's timestamp minus the last-partial timestamp (as a signed 64-bit difference) is
  greater than the interval. When it is queried, the last-partial timestamp becomes the
  buffer's; the text is posted when it is there, is not one of the two empty payloads
  \<^verbatim>\<open>gst_vosk_partial_result\<close> tests for, and differs from the cached partial; and the
  cache takes the text exactly when it is posted. When it is not queried, nothing changes
  but the call log and the last-processed time. With a negative interval no partial query is
  ever made, whatever the buffer, the clock and the engine.
\<close>

theorem partial_query_rule:
  "(buffer_map_ok buf \<and> buffer_data buf \<noteq> [] \<and> accept_waveform eng = 0 \<and>
    \<not> catch_up_skips current_time buf s \<and>
    0 \<le> sint (partial_time_interval s) \<and>
    sint (partial_time_interval s) < sint (GST_CLOCK_DIFF (last_partial s) (GST_BUFFER_PTS buf)) \<longrightarrow>
      engine_calls (fst (gst_vosk_handle_buffer rnn current_time eng buf s))
        = engine_calls s @ [AcceptWaveform, QueryPartialResult] \<and>
      last_partial (fst (gst_vosk_handle_buffer rnn current_time eng buf s)) = GST_BUFFER_PTS buf \<and>
      outputs (fst (gst_vosk_handle_buffer rnn current_time eng buf s))
        = outputs s @
          (if partial_posted eng s
           then [if use_signals s then ResultSignal (the (partial_result_json eng))
                 else ResultMessage (the (partial_result_json eng))]
           else []) \<and>
      prev_partial (fst (gst_vosk_handle_buffer rnn current_time eng buf s))
        = (if partial_posted eng s then partial_result_json eng else prev_partial s)) \<and>
   (buffer_map_ok buf \<and> buffer_data buf \<noteq> [] \<and> accept_waveform eng = 0 \<and>
    \<not> catch_up_skips current_time buf s \<and>
    0 \<le> sint (partial_time_interval s) \<and>
    \<not> sint (partial_time_interval s) < sint (GST_CLOCK_DIFF (last_partial s) (GST_BUFFER_PTS buf)) \<longrightarrow>
      engine_calls (fst (gst_vosk_handle_buffer rnn current_time eng buf s))
        = engine_calls s @ [AcceptWaveform] \<and>
      last_partial (fst (gst_vosk_handle_buffer rnn current_time eng buf s)) = last_partial s \<and>
      outputs (fst (gst_vosk_handle_buffer rnn current_time eng buf s)) = outputs s \<and>
      prev_partial (fst (gst_vosk_handle_buffer rnn current_time eng buf s)) = prev_partial s) \<and>
   (sint (partial_time_interval s) < 0 \<longrightarrow>
      filter (\<lambda>c. c = QueryPartialResult)
        (engine_calls (fst (gst_vosk_handle_buffer rnn current_time eng buf s)))
      = filter (\<lambda>c. c = QueryPartialResult) (engine_calls s))"
proof (intro conjI impI)
  assume a: "buffer_map_ok buf \<and> buffer_data buf \<noteq> [] \<and> accept_waveform eng = 0 \<and>
    \<not> catch_up_skips current_time buf s \<and>
    0 \<le> sint (partial_time_interval s) \<and>
    sint (partial_time_interval s) < sint (GST_CLOCK_DIFF (last_partial s) (GST_BUFFER_PTS buf))"
  then have eq: "fst (gst_vosk_handle_buffer rnn current_time eng buf s) =
    handle_buffer_results eng buf
      ((fst (gst_vosk_apply_denoise rnn s (buffer_data buf)))
        \<lparr>engine_calls := engine_calls s @ [AcceptWaveform],
          last_processed_time := GST_BUFFER_PTS buf\<rparr>)"
    by (intro handle_buffer_processed) simp_all
  from a show "engine_calls (fst (gst_vosk_handle_buffer rnn current_time eng buf s))
        = engine_calls s @ [AcceptWaveform, QueryPartialResult]"
    by (simp add: eq handle_buffer_results_def gst_vosk_partial_result_eq)
  from a show "last_partial (fst (gst_vosk_handle_buffer rnn current_time eng buf s))
        = GST_BUFFER_PTS buf"
    by (simp add: eq handle_buffer_results_def gst_vosk_partial_result_eq)
  from a show "outputs (fst (gst_vosk_handle_buffer rnn current_time eng buf s))
        = outputs s @
          (if partial_posted eng s
           then [if use_signals s then ResultSignal (the (partial_result_json eng))
                 else ResultMessage (the (partial_result_json eng))]
           else [])"
    by (simp add: eq handle_buffer_results_def gst_vosk_partial_result_eq partial_posted_def)
  from a show "prev_partial (fst (gst_vosk_handle_buffer rnn current_time eng buf s))
        = (if partial_posted eng s then partial_result_json eng else prev_partial s)"
    by (simp add: eq handle_buffer_results_def gst_vosk_partial_result_eq partial_posted_def)
next
  assume a: "buffer_map_ok buf \<and> buffer_data buf \<noteq> [] \<and> accept_waveform eng = 0 \<and>
    \<not> catch_up_skips current_time buf s \<and>
    0 \<le> sint (partial_time_interval s) \<and>
    \<not> sint (partial_time_interval s) < sint (GST_CLOCK_DIFF (last_partial s) (GST_BUFFER_PTS buf))"
  then have eq: "fst (gst_vosk_handle_buffer rnn current_time eng buf s) =
    handle_buffer_results eng buf
      ((fst (gst_vosk_apply_denoise rnn s (buffer_data buf)))
        \<lparr>engine_calls := engine_calls s @ [AcceptWaveform],
          last_processed_time := GST_BUFFER_PTS buf\<rparr>)"
    by (intro handle_buffer_processed) simp_all
  from a show "engine_calls (fst (gst_vosk_handle_buffer rnn current_time eng buf s))
        = engine_calls s @ [AcceptWaveform]"
    by (simp add: eq handle_buffer_results_def)
  from a show "last_partial (fst (gst_vosk_handle_buffer rnn current_time eng buf s))
        = last_partial s"
    by (simp add: eq handle_buffer_results_def)
  from a show "outputs (fst (gst_vosk_handle_buffer rnn current_time eng buf s)) = outputs s"
    by (simp add: eq handle_buffer_results_def)
  from a show "prev_partial (fst (gst_vosk_handle_buffer rnn current_time eng buf s))
        = prev_partial s"
    by (simp add: eq handle_buffer_results_def)
next
  assume "sint (partial_time_interval s) < 0"
  then show "filter (\<lambda>c. c = QueryPartialResult)
        (engine_calls (fst (gst_vosk_handle_buffer rnn current_time eng buf s)))
      = filter (\<lambda>c. c = QueryPartialResult) (engine_calls s)"
    by (rule handle_buffer_no_partial_when_disabled)
qed

text \<open>
  The claim makes the timestamp difference the only condition. In catch-up mode the
  difference can exceed the interval (here 100 ms against 0) and still no partial query is
  made, since the buffer is skipped before.
\<close>

theorem partial_query_skipped_while_catching_up:
  "accept_waveform (engine_says 0 ''hello'') = 0 \<and>
   0 \<le> sint (partial_time_interval vosk_streaming) \<and>
   sint (partial_time_interval vosk_streaming)
     < sint (GST_CLOCK_DIFF (last_partial vosk_streaming) (GST_BUFFER_PTS (buffer_at 100000000))) \<and>
   engine_calls (fst (gst_vosk_handle_buffer rnnoise_pass 1000000000 (engine_says 0 ''hello'')
       (buffer_at 100000000) vosk_streaming))
     = engine_calls vosk_streaming @ [AcceptWaveform]"
  by (simp add: run_buffer streaming_fields)

text \<open>
  The theorem at work: a first partial is queried and posted; the same text 0 ms later is
  not queried again; with the interval set to -1 nothing is queried.
\<close>

theorem partial_query_rule_witness:
  "engine_calls (fst (gst_vosk_handle_buffer rnnoise_pass 100000000 (engine_says 0 ''hello'')
       (buffer_at 100000000) vosk_streaming))
     = [AcceptWaveform, AcceptWaveform, QueryPartialResult] \<and>
   outputs (fst (gst_vosk_handle_buffer rnnoise_pass 100000000 (engine_says 0 ''hello'')
       (buffer_at 100000000) vosk_streaming))
     = [AsyncStart, AsyncDone, ContinueState, ResultMessage ''hello''] \<and>
   engine_calls (fst (gst_vosk_handle_buffer rnnoise_pass 100000000 (engine_says 0 ''hello'')
       (buffer_at 100000000) vosk_heard_hello))
     = [AcceptWaveform, AcceptWaveform, QueryPartialResult, AcceptWaveform] \<and>
   filter (\<lambda>c. c = QueryPartialResult)
     (engine_calls (fst (gst_vosk_handle_buffer rnnoise_pass 100000000 (engine_says 0 ''hello'')
       (buffer_at 100000000) (set_partial_results_interval (- 1) vosk_streaming))))
     = []"
  using
    partial_query_rule [of "buffer_at 100000000" "engine_says 0 ''hello''" 100000000
      vosk_streaming rnnoise_pass]
    partial_query_rule [of "buffer_at 100000000" "engine_says 0 ''hello''" 100000000
      vosk_heard_hello rnnoise_pass]
    partial_query_rule [of "buffer_at 100000000" "engine_says 0 ''hello''" 100000000
      "set_partial_results_interval (- 1) vosk_streaming" rnnoise_pass]
  by (simp add: buffer_at_def engine_says_def streaming_fields heard_hello_fields
      catch_up_skips_iff GST_CLOCK_DIFF_def partial_posted_def set_partial_results_interval_def
      GST_MSECOND_def VOSK_EMPTY_PARTIAL_RESULT_def VOSK_EMPTY_TEXT_RESULT_ALT_def)

section \<open>The first buffer\<close>




section \<open>Flush\<close>

text \<open>
  C4, as the code has it. On a flush-start event while a recognizer is installed, the
  element calls \<^verbatim>\<open>vosk_recognizer_reset\<close> and does nothing else: the recognizer handle
  with its model and rate, the element's rate, the model path, the pending operation and
  what has been posted stay as they are, and so does the cached partial.
\<close>

theorem flush_resets_engine_only:
  assumes "recognizer s \<noteq> None"
  shows
    "gst_vosk_sink_event eng GST_EVENT_FLUSH_START s
       = s\<lparr>engine_calls := engine_calls s @ [RecognizerReset]\<rparr> \<and>
     recognizer (gst_vosk_sink_event eng GST_EVENT_FLUSH_START s) = recognizer s \<and>
     rate (gst_vosk_sink_event eng GST_EVENT_FLUSH_START s) = rate s \<and>
     model_path (gst_vosk_sink_event eng GST_EVENT_FLUSH_START s) = model_path s \<and>
     current_operation (gst_vosk_sink_event eng GST_EVENT_FLUSH_START s) = current_operation s \<and>
     outputs (gst_vosk_sink_event eng GST_EVENT_FLUSH_START s) = outputs s \<and>
     prev_partial (gst_vosk_sink_event eng GST_EVENT_FLUSH_START s) = prev_partial s"
  using assms by (simp add: gst_vosk_sink_event_def gst_vosk_flush_def)

text \<open>
  The claim has the flush clear the cached partial. It does not: after a partial
  \<open>hello\<close> and a flush the cache still holds \<open>hello\<close>, and the same text coming
  again after the flush is not posted.
\<close>

theorem flush_keeps_cached_partial:
  "recognizer vosk_heard_hello \<noteq> None \<and>
   prev_partial vosk_heard_hello = Some ''hello'' \<and>
   prev_partial (gst_vosk_sink_event (engine_says 0 ''hello'') GST_EVENT_FLUSH_START
      vosk_heard_hello) = Some ''hello'' \<and>
   outputs (fst (gst_vosk_chain rnnoise_pass 200000000 (engine_says 0 ''hello'')
      (buffer_at 200000000)
      (gst_vosk_sink_event (engine_says 0 ''hello'') GST_EVENT_FLUSH_START vosk_heard_hello)))
     = outputs vosk_heard_hello"
  by (simp add: gst_vosk_sink_event_def gst_vosk_flush_def heard_hello_fields run_buffer)

text \<open>The theorem at work on the same element.\<close>

theorem flush_resets_engine_only_witness:
  "gst_vosk_sink_event (engine_says 0 ''hello'') GST_EVENT_FLUSH_START vosk_heard_hello
     = vosk_heard_hello
         \<lparr>engine_calls :=
            [AcceptWaveform, AcceptWaveform, QueryPartialResult, RecognizerReset]\<rparr> \<and>
   recognizer (gst_vosk_sink_event (engine_says 0 ''hello'') GST_EVENT_FLUSH_START vosk_heard_hello)
     = Some (VoskRecognizer (VoskModel DEFAULT_SPEECH_MODEL) 16000 0) \<and>
   rate (gst_vosk_sink_event (engine_says 0 ''hello'') GST_EVENT_FLUSH_START vosk_heard_hello)
     = 16000"
  using flush_resets_engine_only [of vosk_heard_hello "engine_says 0 ''hello''"]
  by (simp add: heard_hello_fields)

section \<open>Empty payloads\<close>




section \<open>Cancelling a load\<close>

text \<open>
  What a cancelled worker does. One that finds its cancellable cancelled before it starts
  leaves the element exactly as it is. One that finds it cancelled after the model has been
  built (the test made under the element's lock) installs no recognizer and posts nothing;
  but by then it has released the element's pending operation and set it to
  \<^verbatim>\<open>NULL\<close>, whichever operation that was.
\<close>

lemma cancelled_load_not_installed:
  "(cancellable status \<in> cancelled s \<longrightarrow>
      gst_vosk_load_model_async vosk_model_new created caps meanwhile status s = s) \<and>
   (cancellable status \<notin> cancelled s \<and> cancellable status \<in> cancelled (meanwhile s) \<longrightarrow>
      gst_vosk_load_model_async vosk_model_new created caps meanwhile status s
        = (meanwhile s)\<lparr>current_operation := None\<rparr> \<and>
      recognizer (gst_vosk_load_model_async vosk_model_new created caps meanwhile status s)
        = recognizer (meanwhile s) \<and>
      outputs (gst_vosk_load_model_async vosk_model_new created caps meanwhile status s)
        = outputs (meanwhile s))"
  by (simp add: gst_vosk_load_model_async_def load_model_clean_def Let_def insert_absorb)

text \<open>
  Two runs: a worker that starts after the cancellation, and one cancelled while it builds
  the model, with no other load requested in between.
\<close>

lemma cancelled_load_not_installed_instances:
  "gst_vosk_load_model_async (\<lambda>p. Some (VoskModel p)) True (Some 16000) (\<lambda>s. s)
      \<lparr>path = DEFAULT_SPEECH_MODEL, cancellable = 1\<rparr> (change_state_to_ready vosk_loading)
     = change_state_to_ready vosk_loading \<and>
   gst_vosk_load_model_async (\<lambda>p. Some (VoskModel p)) True (Some 16000) change_state_to_ready
      \<lparr>path = DEFAULT_SPEECH_MODEL, cancellable = 1\<rparr> vosk_loading
     = (change_state_to_ready vosk_loading)\<lparr>current_operation := None\<rparr> \<and>
   recognizer
     (gst_vosk_load_model_async (\<lambda>p. Some (VoskModel p)) True (Some 16000) change_state_to_ready
        \<lparr>path = DEFAULT_SPEECH_MODEL, cancellable = 1\<rparr> vosk_loading) = None"
  using
    cancelled_load_not_installed [of "\<lparr>path = DEFAULT_SPEECH_MODEL, cancellable = 1\<rparr>"
      "change_state_to_ready vosk_loading" "\<lambda>p. Some (VoskModel p)" True "Some 16000" "\<lambda>s. s"]
    cancelled_load_not_installed [of "\<lparr>path = DEFAULT_SPEECH_MODEL, cancellable = 1\<rparr>"
      vosk_loading "\<lambda>p. Some (VoskModel p)" True "Some 16000" change_state_to_ready]
  by (simp add: loading_fields to_ready_fields)

text \<open>
  C9. A cancelled load is to leave the session's state untouched and never to end in an
  installed recognizer. The worker breaks this at one place:
  \<^verbatim>\<open>g_object_unref(vosk->current_operation); vosk->current_operation=NULL\<close> comes before
  the test of the worker's own cancellable. Let the pipeline go to READY and back to PAUSED
  while the first model is being built: the first load is cancelled and a second one is
  requested, whose cancellable is now the element's pending operation. The first worker
  takes the lock and clears that operation, then finds itself cancelled and leaves. When
  the pipeline next goes to READY, \<^verbatim>\<open>gst_vosk_cancel_model_loading\<close> finds no pending
  operation, so the second load is not cancelled; its worker builds the model and, the pad
  having caps, installs a recognizer in an element that has been deactivated, and reports
  the state change as completed.
\<close>

theorem cancelled_load_clears_pending_operation:
  "1 \<notin> cancelled vosk_loading \<and>
   1 \<in> cancelled (pipeline_restarted vosk_loading) \<and>
   current_operation (pipeline_restarted vosk_loading) = Some 2 \<and>
   current_operation first_worker_done = None \<and>
   2 \<notin> cancelled (change_state_to_ready first_worker_done) \<and>
   recognizer (change_state_to_ready first_worker_done) = None \<and>
   recognizer
     (gst_vosk_load_model_async (\<lambda>p. Some (VoskModel p)) True (Some 16000) (\<lambda>s. s)
        \<lparr>path = DEFAULT_SPEECH_MODEL, cancellable = 2\<rparr>
        (change_state_to_ready first_worker_done))
     = Some (VoskRecognizer (VoskModel DEFAULT_SPEECH_MODEL) 16000 0) \<and>
   outputs
     (gst_vosk_load_model_async (\<lambda>p. Some (VoskModel p)) True (Some 16000) (\<lambda>s. s)
        \<lparr>path = DEFAULT_SPEECH_MODEL, cancellable = 2\<rparr>
        (change_state_to_ready first_worker_done))
     = [AsyncStart, AsyncStart, AsyncDone, ContinueState]"
  by (simp add: loading_fields restarted_fields first_worker_done_fields deactivated_fields
      gst_vosk_load_model_async_def load_model_clean_def Let_def gst_vosk_recognizer_new_def
      gst_vosk_get_rate_def gfloat_of_gint_def gst_vosk_init_denoise_def)

section \<open>Noise suppression\<close>

text \<open>
  C7. Let denoising be at work (enabled, initialized, 48000 Hz, RNNoise state present) on
  arrays of the shape \<^verbatim>\<open>gst_vosk_init_denoise\<close> gives them, the transform having seen
  \<open>frames\<close> so far. Feeding any sequence of buffers runs the suppression transform once
  for every frame completed: the count grows by the accumulated samples divided by the frame
  size, so starting from an empty accumulator buffers that total \<open>k\<close> frames run it
  exactly \<open>k\<close> times, however they are cut. The frames it is given are the consecutive
  blocks of 480 samples of \<open>streams\<close>, the samples waiting in the accumulator followed by
  those of the buffers, as floats; the accumulator keeps the samples left over.

  For one buffer, with \<open>stream\<close> the samples waiting followed by the buffer's: once the
  buffer has been accumulated the output queue is the old queue followed by the cleaned
  frames, each the transform's output on its block of the stream after the blocks before it,
  the first ones completed and as many as the queue had room for. The buffer is rewritten
  with the first samples of that queue, as many as the buffer asks for or as there are, each
  brought into the range of \<^verbatim>\<open>gint16\<close> and truncated toward zero, followed by silence
  for the rest; and the queue that remains is that queue without the samples taken.
\<close>

theorem denoise_frames_and_drain:
  fixes s :: vosk and rnn :: rnnoise and bufs :: "gint16 list list" and buf :: "gint16 list"
  defines "streams \<equiv> take (denoise_buffer_pos s) (denoise_input_buffer s)
                       @ map (\<lambda>x. real_of_int (sint x)) (concat bufs)"
  defines "stream \<equiv> take (denoise_buffer_pos s) (denoise_input_buffer s)
                      @ map (\<lambda>x. real_of_int (sint x)) buf"
  assumes "denoise_active s" and "denoise_wf s" and "denoise_state s = Some frames"
  shows
    "rnnoise_calls (fst (denoise_buffers rnn s bufs))
       = rnnoise_calls s
         + (denoise_buffer_pos s + sum_list (map length bufs)) div RNNOISE_FRAME_SIZE \<and>
     (denoise_buffer_pos s = 0 \<and> sum_list (map length bufs) = k * RNNOISE_FRAME_SIZE \<longrightarrow>
        rnnoise_calls (fst (denoise_buffers rnn s bufs)) = rnnoise_calls s + k) \<and>
     denoise_state (fst (denoise_buffers rnn s bufs))
       = Some (frames
               @ map (\<lambda>j. take RNNOISE_FRAME_SIZE (drop (RNNOISE_FRAME_SIZE * j) streams))
                   [0..<length streams div RNNOISE_FRAME_SIZE]) \<and>
     take (denoise_buffer_pos (fst (denoise_buffers rnn s bufs)))
          (denoise_input_buffer (fst (denoise_buffers rnn s bufs)))
       = drop (RNNOISE_FRAME_SIZE * (length streams div RNNOISE_FRAME_SIZE)) streams \<and>
     output_queue (denoise_loop rnn buf (s, 0))
       = output_queue s
         @ concat
             (map (\<lambda>j. map (rnn (frames
                                   @ map (\<lambda>i. take RNNOISE_FRAME_SIZE
                                                 (drop (RNNOISE_FRAME_SIZE * i) stream)) [0..<j])
                                (take RNNOISE_FRAME_SIZE (drop (RNNOISE_FRAME_SIZE * j) stream)))
                         [0..<RNNOISE_FRAME_SIZE])
                [0..<min (length stream div RNNOISE_FRAME_SIZE)
                         ((denoise_buffer_size s - denoise_output_pos s)
                            div RNNOISE_FRAME_SIZE)]) \<and>
     snd (gst_vosk_apply_denoise rnn s buf)
       = map (\<lambda>x. word_of_int
                     (if 32767 < x then 32767 else if x < - 32768 then - 32768
                      else if 0 \<le> x then \<lfloor>x\<rfloor> else \<lceil>x\<rceil>))
           (take (length buf) (output_queue (denoise_loop rnn buf (s, 0))))
         @ replicate (length buf - length (output_queue (denoise_loop rnn buf (s, 0)))) 0 \<and>
     length (take (length buf) (output_queue (denoise_loop rnn buf (s, 0))))
       = min (length buf) (denoise_output_pos (denoise_loop rnn buf (s, 0))) \<and>
     output_queue (fst (gst_vosk_apply_denoise rnn s buf))
       = drop (length buf) (output_queue (denoise_loop rnn buf (s, 0)))"
proof -
  note act = assms(3) and wf = assms(4) and frames = assms(5)
  have streams_eq: "streams = take (denoise_buffer_pos s) (denoise_input_buffer s)
                       @ map (\<lambda>x. real_of_int (sint x)) (concat bufs)"
    by (simp only: streams_def)
  have stream_eq: "stream = take (denoise_buffer_pos s) (denoise_input_buffer s)
                      @ map (\<lambda>x. real_of_int (sint x)) buf"
    by (simp only: stream_def)
  note b = denoise_buffers_effect [OF act wf, of rnn bufs]
  note f = denoise_buffers_frames [OF act wf frames streams_eq, of rnn]
  note c = apply_denoise_content [OF act wf frames stream_eq, of rnn]
  define s1 where "s1 = denoise_loop rnn buf (s, 0)"
  have "denoise_wf s1"
    using denoise_loop_effect [of "(s, 0)" buf rnn] act wf by (simp add: s1_def)
  then have shape: "denoise_output_pos s1 \<le> denoise_buffer_size s1"
    "length (denoise_output_buffer s1) = denoise_buffer_size s1"
    by (simp_all add: denoise_wf_def)
  note d = denoise_drain_effect [OF shape, of buf]
  have eq: "gst_vosk_apply_denoise rnn s buf = denoise_drain s1 buf"
    using act by (simp add: apply_denoise_active_eq s1_def)
  have calls: "rnnoise_calls (fst (denoise_buffers rnn s bufs))
       = rnnoise_calls s
         + (denoise_buffer_pos s + sum_list (map length bufs)) div RNNOISE_FRAME_SIZE"
    using b by simp
  have aligned: "rnnoise_calls (fst (denoise_buffers rnn s bufs)) = rnnoise_calls s + k"
    if "denoise_buffer_pos s = 0 \<and> sum_list (map length bufs) = k * RNNOISE_FRAME_SIZE"
    using that calls by (simp add: RNNOISE_FRAME_SIZE_def)
  have seen: "denoise_state (fst (denoise_buffers rnn s bufs))
       = Some (frames
               @ map (\<lambda>j. take RNNOISE_FRAME_SIZE (drop (RNNOISE_FRAME_SIZE * j) streams))
                   [0..<length streams div RNNOISE_FRAME_SIZE])"
    and rest: "take (denoise_buffer_pos (fst (denoise_buffers rnn s bufs)))
          (denoise_input_buffer (fst (denoise_buffers rnn s bufs)))
       = drop (RNNOISE_FRAME_SIZE * (length streams div RNNOISE_FRAME_SIZE)) streams"
    using f by (simp_all only: RNNOISE_FRAME_SIZE_def)
  have queue: "output_queue s1
       = output_queue s
         @ concat
             (map (\<lambda>j. map (rnn (frames
                                   @ map (\<lambda>i. take RNNOISE_FRAME_SIZE
                                                 (drop (RNNOISE_FRAME_SIZE * i) stream)) [0..<j])
                                (take RNNOISE_FRAME_SIZE (drop (RNNOISE_FRAME_SIZE * j) stream)))
                         [0..<RNNOISE_FRAME_SIZE])
                [0..<min (length stream div RNNOISE_FRAME_SIZE)
                         ((denoise_buffer_size s - denoise_output_pos s)
                            div RNNOISE_FRAME_SIZE)])"
    using c(3) by (simp only: RNNOISE_FRAME_SIZE_def s1_def)
  have written: "snd (denoise_drain s1 buf)
       = map (\<lambda>x. word_of_int
                     (if 32767 < x then 32767 else if x < - 32768 then - 32768
                      else if 0 \<le> x then \<lfloor>x\<rfloor> else \<lceil>x\<rceil>))
           (take (length buf) (output_queue s1))
         @ replicate (length buf - length (output_queue s1)) 0"
    by (simp only: d(1) gst_vosk_convert_float_to_s16_def float_to_s16_sample)
  have lq: "length (take (length buf) (output_queue s1)) = min (length buf) (denoise_output_pos s1)"
    using shape by (simp add: output_queue_def)
  show ?thesis
    using calls aligned seen rest queue written lq d(2)
    unfolding s1_def [symmetric] eq by blast
qed

text \<open>
  On the element activated at 48000 Hz: buffers of 100, 500 and 360 samples make two frames
  and run the transform twice; the first of them, alone, finds the queue empty and comes
  back as silence. With a transform that multiplies every sample by 2.5, a buffer of 500
  samples completes one frame and comes back as that frame cleaned, 7.5 written as 7, -7.5
  as -7, 50000 as 32767 and -50000 as -32768, followed by 20 samples of silence.
\<close>

theorem denoise_frames_and_drain_witness:
  "rnnoise_calls
     (fst (denoise_buffers rnnoise_pass (vosk_activated 48000)
        [replicate 100 0, replicate 500 0, replicate 360 0])) = 2 \<and>
   snd (gst_vosk_apply_denoise rnnoise_pass (vosk_activated 48000) (replicate 100 0))
     = replicate 100 0 \<and>
   snd (gst_vosk_apply_denoise (\<lambda>frames frame i. frame ! i * 5 / 2) (vosk_activated 48000)
          (replicate 120 3 @ replicate 120 (- 3) @ replicate 120 20000 @ replicate 120 (- 20000)
           @ replicate 20 1))
     = replicate 120 7 @ replicate 120 (- 7) @ replicate 120 32767 @ replicate 120 (- 32768)
       @ replicate 20 0"
proof -
  note t1 =
    denoise_frames_and_drain [OF activated_48000(1,2) activated_48000_fresh(1),
      where rnn = rnnoise_pass
        and bufs = "[replicate 100 0, replicate 500 0, replicate 360 0]"
        and k = 2 and buf = "replicate 100 0"]
  have w1: "rnnoise_calls
     (fst (denoise_buffers rnnoise_pass (vosk_activated 48000)
        [replicate 100 0, replicate 500 0, replicate 360 0])) = 2"
    using t1 by (simp add: activated_48000 RNNOISE_FRAME_SIZE_def del: denoise_buffers.simps)
  have q1: "output_queue (denoise_loop rnnoise_pass (replicate 100 0) (vosk_activated 48000, 0)) = []"
    using t1 by (simp add: activated_48000 activated_48000_fresh RNNOISE_FRAME_SIZE_def
        del: denoise_buffers.simps)
  have w2: "snd (gst_vosk_apply_denoise rnnoise_pass (vosk_activated 48000) (replicate 100 0))
     = replicate 100 0"
    using t1 by (simp add: q1 del: denoise_buffers.simps)
  define buf :: "gint16 list" where
    "buf = replicate 120 3 @ replicate 120 (- 3) @ replicate 120 20000 @ replicate 120 (- 20000)
           @ replicate 20 1"
  define frame :: "gfloat list" where
    "frame = replicate 120 3 @ replicate 120 (- 3) @ replicate 120 20000 @ replicate 120 (- 20000)"
  note t2 =
    denoise_frames_and_drain [OF activated_48000(1,2) activated_48000_fresh(1),
      where rnn = "\<lambda>frames frame i. frame ! i * 5 / 2" and bufs = "[]" and k = 0 and buf = buf]
  have lf: "length frame = 480"
    by (simp add: frame_def)
  have fr: "take 480 (map signed buf) = frame"
    by (simp add: buf_def frame_def)
  have lb: "length buf = 500"
    by (simp add: buf_def)
  have "map (\<lambda>i. frame ! i * 5 / 2) [0..<length frame] = map (\<lambda>x. x * 5 / 2) frame"
    by (rule map_nth_fun)
  then have cl: "map (\<lambda>i. frame ! i * 5 / 2) [0..<480] = map (\<lambda>x. x * 5 / 2) frame"
    by (simp only: lf)
  have q2: "output_queue (denoise_loop (\<lambda>frames frame i. frame ! i * 5 / 2) buf
              (vosk_activated 48000, 0)) = map (\<lambda>x. x * 5 / 2) frame"
    using t2 by (simp add: activated_48000 activated_48000_fresh RNNOISE_FRAME_SIZE_def lb fr cl)
  have "snd (gst_vosk_apply_denoise (\<lambda>frames frame i. frame ! i * 5 / 2) (vosk_activated 48000) buf)
     = replicate 120 7 @ replicate 120 (- 7) @ replicate 120 32767 @ replicate 120 (- 32768)
       @ replicate 20 0"
    using t2 by (simp add: q2 lb lf) (simp add: frame_def)
  then show ?thesis
    using w1 w2 by (simp only: buf_def)
qed

text \<open>
  C8. Under the same conditions every call of \<^verbatim>\<open>gst_vosk_apply_denoise\<close> keeps the
  shape of the arrays, so the next call starts as this one did, and the output position
  never exceeds the buffer size, neither after the accumulation nor after the drain. During
  the accumulation the position grows by one frame for each completed frame that fits, and
  by nothing for the others: it ends at the old position plus the frame size times the smaller
  of the number of frames completed and the number of frames there was room for. What was
  in the queue before is still there, in place. For a single completed frame: if it fits it is
  appended behind the queue, if not the queue is left exactly as it was.
\<close>

theorem output_queue_bounded:
  assumes "denoise_active s" and "denoise_wf s"
  shows
    "denoise_active (fst (gst_vosk_apply_denoise rnn s buf)) \<and>
     denoise_wf (fst (gst_vosk_apply_denoise rnn s buf)) \<and>
     denoise_buffer_size (fst (gst_vosk_apply_denoise rnn s buf)) = denoise_buffer_size s \<and>
     denoise_output_pos (fst (gst_vosk_apply_denoise rnn s buf)) \<le> denoise_buffer_size s \<and>
     denoise_output_pos (denoise_loop rnn buf (s, 0)) \<le> denoise_buffer_size s \<and>
     denoise_output_pos (denoise_loop rnn buf (s, 0))
       = denoise_output_pos s
         + RNNOISE_FRAME_SIZE *
           min ((denoise_buffer_pos s + length buf) div RNNOISE_FRAME_SIZE)
               ((denoise_buffer_size s - denoise_output_pos s) div RNNOISE_FRAME_SIZE) \<and>
     take (denoise_output_pos s) (output_queue (denoise_loop rnn buf (s, 0))) = output_queue s \<and>
     (denoise_output_pos s + RNNOISE_FRAME_SIZE \<le> denoise_buffer_size s \<longrightarrow>
        denoise_output_pos (denoise_frame_complete rnn s)
          = denoise_output_pos s + RNNOISE_FRAME_SIZE \<and>
        take (denoise_output_pos s) (output_queue (denoise_frame_complete rnn s))
          = output_queue s) \<and>
     (\<not> denoise_output_pos s + RNNOISE_FRAME_SIZE \<le> denoise_buffer_size s \<longrightarrow>
        output_queue (denoise_frame_complete rnn s) = output_queue s)"
proof -
  define s1 where "s1 = denoise_loop rnn buf (s, 0)"
  have l: "denoise_wf s1"
    "denoise_buffer_size s1 = denoise_buffer_size s"
    "denoise_output_pos s1
       = denoise_output_pos s
         + RNNOISE_FRAME_SIZE *
           min ((denoise_buffer_pos s + length buf) div RNNOISE_FRAME_SIZE)
               ((denoise_buffer_size s - denoise_output_pos s) div RNNOISE_FRAME_SIZE)"
    "take (denoise_output_pos s) (denoise_output_buffer s1)
       = take (denoise_output_pos s) (denoise_output_buffer s)"
    using denoise_loop_effect [of "(s, 0)" buf rnn] assms by (simp_all add: s1_def)
  have o1: "denoise_output_pos s1 \<le> denoise_buffer_size s"
    using l(1,2) by (simp add: denoise_wf_def)
  have ge: "denoise_output_pos s \<le> denoise_output_pos s1"
    by (simp add: l(3))
  have prefix: "take (denoise_output_pos s) (output_queue s1) = output_queue s"
    using ge l(4) by (simp add: output_queue_def min_def)
  note a = apply_denoise_effect [OF assms, of rnn buf]
  have o2: "denoise_output_pos (fst (gst_vosk_apply_denoise rnn s buf)) \<le> denoise_buffer_size s"
    using a(2,3) by (simp add: denoise_wf_def)
  have shape: "length (denoise_input_buffer s) = denoise_buffer_size s"
    "length (denoise_output_buffer s) = denoise_buffer_size s"
    "RNNOISE_FRAME_SIZE \<le> denoise_buffer_size s"
    "denoise_output_pos s \<le> denoise_buffer_size s"
    using assms(2) by (simp_all add: denoise_wf_def)
  note fc = frame_complete_effect [OF assms(1) shape, of rnn]
  have fits: "denoise_output_pos (denoise_frame_complete rnn s)
          = denoise_output_pos s + RNNOISE_FRAME_SIZE \<and>
        take (denoise_output_pos s) (output_queue (denoise_frame_complete rnn s))
          = output_queue s"
    if "denoise_output_pos s + RNNOISE_FRAME_SIZE \<le> denoise_buffer_size s"
    using fc(6) [OF that] by (simp add: output_queue_def min_def)
  have nofit: "output_queue (denoise_frame_complete rnn s) = output_queue s"
    if "\<not> denoise_output_pos s + RNNOISE_FRAME_SIZE \<le> denoise_buffer_size s"
    using fc(7) [OF that] by (simp add: output_queue_def)
  show ?thesis
    using a(1,2,3) o2 o1 l(3) prefix fits nofit
    unfolding s1_def [symmetric] by blast
qed

text \<open>
  On the element activated at 48000 Hz, a buffer of 1500 samples completes three frames; two
  fit into the 960 places of the queue and the third is dropped.
\<close>

theorem output_queue_bounded_witness:
  "denoise_output_pos (denoise_loop rnnoise_pass (replicate 1500 0) (vosk_activated 48000, 0)) = 960 \<and>
   denoise_output_pos
     (fst (gst_vosk_apply_denoise rnnoise_pass (vosk_activated 48000) (replicate 1500 0))) \<le> 960 \<and>
   denoise_wf (fst (gst_vosk_apply_denoise rnnoise_pass (vosk_activated 48000) (replicate 1500 0)))"
  using output_queue_bounded [OF activated_48000(1,2), of rnnoise_pass "replicate 1500 0"]
  by (simp add: activated_48000 RNNOISE_FRAME_SIZE_def)

end
